theory Spec2Isabelle
  imports Main "HOL-Library.Word"
begin

section \<open>The POSIX UART driver of BTstack: block and SLIP frame transfer\<close>

text \<open>
  A shallow embedding of \<^verbatim>\<open>src/platform/posix/btstack_uart_posix.c\<close>. The file keeps its
  state in static variables and is driven by a run loop: a request (\<^verbatim>\<open>send_block\<close>,
  \<^verbatim>\<open>receive_frame\<close>, ...) records the operation and arms interest in the descriptor, and
  \<^verbatim>\<open>hci_uart_posix_process\<close> advances it when the run loop reports the descriptor ready.

  The static variables are the fields of one record. Whatever the driver does to the outside
  (calls into the run loop, system calls, error log lines, the callbacks of the caller) is
  appended to the field \<open>trace\<close>, oldest first. Every callback is the last statement on its
  path through the driver, so a request issued from inside a callback runs exactly as one
  issued right after the driver function has returned.

  The value a \<^verbatim>\<open>read\<close> or \<^verbatim>\<open>write\<close> system call returns is chosen by the environment; it is
  an argument of the function that makes the call.

  Left out: the time stamps (\<^verbatim>\<open>btstack_run_loop_get_time_ms\<close>,
  \<^verbatim>\<open>btstack_uart_slip_receive_start_time\<close>), which feed \<^verbatim>\<open>log_info\<close> lines only, the
  \<^verbatim>\<open>log_info\<close> and \<^verbatim>\<open>log_debug\<close> lines other than the one that reports a chunk, the contents of
  the caller's block buffers, and the termios configuration (\<^verbatim>\<open>open\<close>, \<^verbatim>\<open>set_baudrate\<close>,
  \<^verbatim>\<open>set_parity\<close>, \<^verbatim>\<open>set_flowcontrol\<close>).
\<close>

type_synonym u8 = "8 word"

subsection \<open>Effects\<close>

datatype callback_type =
    DATA_SOURCE_CALLBACK_POLL
  | DATA_SOURCE_CALLBACK_READ
  | DATA_SOURCE_CALLBACK_WRITE

datatype effect =
    Enable callback_type   \<comment> \<open>\<^verbatim>\<open>btstack_run_loop_enable_data_source_callbacks\<close>\<close>
  | Disable callback_type  \<comment> \<open>\<^verbatim>\<open>btstack_run_loop_disable_data_source_callbacks\<close>\<close>
  | RemoveDataSource       \<comment> \<open>\<^verbatim>\<open>btstack_run_loop_remove_data_source\<close>\<close>
  | SysWrite int           \<comment> \<open>\<^verbatim>\<open>write(fd, data, len)\<close>, with the length asked for\<close>
  | SysRead nat            \<comment> \<open>\<^verbatim>\<open>read(fd, buffer, len)\<close>, with the length asked for\<close>
  | SysClose int           \<comment> \<open>\<^verbatim>\<open>close(fd)\<close>\<close>
  | LogError string        \<comment> \<open>\<^verbatim>\<open>log_error\<close>\<close>
  | LogSlipSend nat        \<comment> \<open>\<^verbatim>\<open>log_debug("slip: send %d bytes", pos)\<close>\<close>
  | BlockSent              \<comment> \<open>the callback \<^verbatim>\<open>block_sent()\<close>\<close>
  | BlockReceived          \<comment> \<open>the callback \<^verbatim>\<open>block_received()\<close>\<close>
  | FrameSent              \<comment> \<open>the callback \<^verbatim>\<open>frame_sent()\<close>\<close>
  | FrameReceived nat      \<comment> \<open>the callback \<^verbatim>\<open>frame_received(frame_size)\<close>\<close>

subsection \<open>The SLIP codec\<close>

text \<open>
  Modelled from the spec: the SLIP codec (\<^verbatim>\<open>btstack_slip.h\<close>) is not under \<^verbatim>\<open>src/\<close>. The
  driver uses it through six functions, and the model takes them as a parameter: a record
  of functions over an encoder state \<open>'e\<close> and a decoder state \<open>'d\<close>, with the call contract
  of the spec (\<^verbatim>\<open>encoder_start(frame, size)\<close>, \<^verbatim>\<open>encoder_has_pending() -> bool\<close>,
  \<^verbatim>\<open>encoder_next_byte() -> byte\<close>, \<^verbatim>\<open>decoder_init(buffer, capacity)\<close>, \<^verbatim>\<open>decoder_feed(byte)\<close> and
  the frame size it reports, zero while no frame is complete).
\<close>

record ('e, 'd) slip_codec =
  btstack_slip_encoder_start :: "u8 list \<Rightarrow> 'e"
  btstack_slip_encoder_has_data :: "'e \<Rightarrow> bool"
  btstack_slip_encoder_get_byte :: "'e \<Rightarrow> u8 \<times> 'e"
  btstack_slip_decoder_init :: "nat \<Rightarrow> 'd"
  btstack_slip_decoder_process :: "u8 \<Rightarrow> 'd \<Rightarrow> 'd"
  btstack_slip_decoder_frame_size :: "'d \<Rightarrow> nat"

text \<open>
  What an encoder in state \<open>e\<close> still has to hand out: \<open>encoder_yields C e bs\<close> says that it
  reports data exactly \<open>length bs\<close> more times and hands out the bytes \<open>bs\<close> in this order.
\<close>

primrec encoder_yields :: "('e, 'd) slip_codec \<Rightarrow> 'e \<Rightarrow> u8 list \<Rightarrow> bool" where
  "encoder_yields C e [] = (\<not> btstack_slip_encoder_has_data C e)"
| "encoder_yields C e (b # bs) =
     (btstack_slip_encoder_has_data C e \<and>
      fst (btstack_slip_encoder_get_byte C e) = b \<and>
      encoder_yields C (snd (btstack_slip_encoder_get_byte C e)) bs)"

text \<open>
  What a decoder in state \<open>d\<close> makes of the bytes \<open>bs\<close>: \<open>decoder_completes C d bs n\<close> says
  that it reports no frame before the last byte of \<open>bs\<close> and a frame of size \<open>n\<close> at the last
  byte, and \<open>decoder_pending C d bs\<close> that it reports no frame at any byte of \<open>bs\<close>.
\<close>

primrec decoder_completes :: "('e, 'd) slip_codec \<Rightarrow> 'd \<Rightarrow> u8 list \<Rightarrow> nat \<Rightarrow> bool" where
  "decoder_completes C d [] n = False"
| "decoder_completes C d (b # bs) n =
     (let d' = btstack_slip_decoder_process C b d;
          frame_size = btstack_slip_decoder_frame_size C d'
      in if frame_size = 0 then decoder_completes C d' bs n
         else bs = [] \<and> frame_size = n)"

primrec decoder_pending :: "('e, 'd) slip_codec \<Rightarrow> 'd \<Rightarrow> u8 list \<Rightarrow> bool" where
  "decoder_pending C d [] = True"
| "decoder_pending C d (b # bs) =
     (let d' = btstack_slip_decoder_process C b d
      in btstack_slip_decoder_frame_size C d' = 0 \<and> decoder_pending C d' bs)"

primrec decoder_feed :: "('e, 'd) slip_codec \<Rightarrow> 'd \<Rightarrow> u8 list \<Rightarrow> 'd" where
  "decoder_feed C d [] = d"
| "decoder_feed C d (b # bs) = decoder_feed C (btstack_slip_decoder_process C b d) bs"

text \<open>
  For evaluating the driver at concrete inputs, the codec of the spec's scenario
  (\<^verbatim>\<open>send_frame([0x01,0x02,0x03], 3)\<close> makes three chunks of one byte: one encoded byte for each
  byte of the frame) with a decoder that counts the bytes up to the delimiter \<^verbatim>\<open>0xC0\<close> and
  reports the count there.
\<close>

definition scenario_codec :: "(u8 list, nat \<times> nat) slip_codec" where
  "scenario_codec =
     \<lparr> btstack_slip_encoder_start = (\<lambda>frame. frame),
       btstack_slip_encoder_has_data = (\<lambda>e. e \<noteq> []),
       btstack_slip_encoder_get_byte = (\<lambda>e. (hd e, tl e)),
       btstack_slip_decoder_init = (\<lambda>len. (0, 0)),
       btstack_slip_decoder_process =
         (\<lambda>b (count, size). if b = 0xC0 then (0, count) else (count + 1, 0)),
       btstack_slip_decoder_frame_size = snd \<rparr>"

subsection \<open>The static variables\<close>

definition SLIP_TX_CHUNK_LEN :: nat where
  "SLIP_TX_CHUNK_LEN = 128"

definition SLIP_RECEIVE_BUFFER_SIZE :: nat where
  "SLIP_RECEIVE_BUFFER_SIZE = 128"

text \<open>
  The pointers into the caller's buffers and into the chunk buffer are offsets. The
  \<^verbatim>\<open>uint16_t\<close> variables are natural numbers, reduced modulo \<open>2 ^ 16\<close> where the source
  converts a wider value; the \<^verbatim>\<open>int\<close> lengths are integers (a \<^verbatim>\<open>write\<close> returns at most the
  length it was asked for, so they stay between 0 and 65535). A callback variable is
  \<open>True\<close> when a handler is registered and \<open>False\<close> when it is \<^verbatim>\<open>NULL\<close>. The two interest
  flags and the registration of the data source belong to the run loop.
\<close>

record ('e, 'd) uart =
  ds_fd :: int
  ds_registered :: bool
  ds_read_enabled :: bool
  ds_write_enabled :: bool
  btstack_uart_block_write_bytes_len :: int
  btstack_uart_block_write_bytes_data :: int
  btstack_uart_block_read_bytes_len :: nat
  btstack_uart_block_read_bytes_data :: int
  block_sent :: bool
  block_received :: bool
  btstack_uart_slip_outgoing_buffer :: "u8 list"
  btstack_uart_slip_write_bytes_len :: int
  btstack_uart_slip_write_bytes_data :: int
  btstack_uart_slip_write_active :: bool
  btstack_uart_slip_receive_buffer :: "u8 list"
  btstack_uart_slip_receive_pos :: nat
  btstack_uart_slip_receive_len :: nat
  btstack_uart_slip_receive_track_start :: nat
  btstack_uart_slip_receive_active :: bool
  frame_sent :: bool
  frame_received :: bool
  slip_encoder :: 'e
  slip_decoder :: 'd
  trace :: "effect list"

text \<open>The static variables as the program starts: zero, \<^verbatim>\<open>NULL\<close>, nothing done yet.\<close>

definition startup :: "'e \<Rightarrow> 'd \<Rightarrow> ('e, 'd) uart" where
  "startup e d =
     \<lparr> ds_fd = 0, ds_registered = False, ds_read_enabled = False, ds_write_enabled = False,
       btstack_uart_block_write_bytes_len = 0, btstack_uart_block_write_bytes_data = 0,
       btstack_uart_block_read_bytes_len = 0, btstack_uart_block_read_bytes_data = 0,
       block_sent = False, block_received = False,
       btstack_uart_slip_outgoing_buffer = replicate (SLIP_TX_CHUNK_LEN + 1) 0,
       btstack_uart_slip_write_bytes_len = 0, btstack_uart_slip_write_bytes_data = 0,
       btstack_uart_slip_write_active = False,
       btstack_uart_slip_receive_buffer = replicate SLIP_RECEIVE_BUFFER_SIZE 0,
       btstack_uart_slip_receive_pos = 0, btstack_uart_slip_receive_len = 0,
       btstack_uart_slip_receive_track_start = 0,
       btstack_uart_slip_receive_active = False,
       frame_sent = False, frame_received = False,
       slip_encoder = e, slip_decoder = d, trace = [] \<rparr>"

definition emit :: "effect \<Rightarrow> ('e, 'd) uart \<Rightarrow> ('e, 'd) uart" where
  "emit x s = s\<lparr>trace := trace s @ [x]\<rparr>"

text \<open>What the driver has done to the outside on the way from \<open>s\<close> to \<open>s'\<close>.\<close>

definition effects_since :: "('e, 'd) uart \<Rightarrow> ('e, 'd) uart \<Rightarrow> effect list" where
  "effects_since s s' = drop (length (trace s)) (trace s')"

subsection \<open>The run loop\<close>

text \<open>
  Modelled from the spec: the run loop is not under \<^verbatim>\<open>src/\<close>. Arming and disarming set and
  clear the interest flag of the data source for the given direction, and removing the
  data source ends its registration.
\<close>

definition btstack_run_loop_enable_data_source_callbacks ::
    "callback_type \<Rightarrow> ('e, 'd) uart \<Rightarrow> ('e, 'd) uart" where
  "btstack_run_loop_enable_data_source_callbacks ct s =
     emit (Enable ct)
       (case ct of
          DATA_SOURCE_CALLBACK_READ \<Rightarrow> s\<lparr>ds_read_enabled := True\<rparr>
        | DATA_SOURCE_CALLBACK_WRITE \<Rightarrow> s\<lparr>ds_write_enabled := True\<rparr>
        | DATA_SOURCE_CALLBACK_POLL \<Rightarrow> s)"

definition btstack_run_loop_disable_data_source_callbacks ::
    "callback_type \<Rightarrow> ('e, 'd) uart \<Rightarrow> ('e, 'd) uart" where
  "btstack_run_loop_disable_data_source_callbacks ct s =
     emit (Disable ct)
       (case ct of
          DATA_SOURCE_CALLBACK_READ \<Rightarrow> s\<lparr>ds_read_enabled := False\<rparr>
        | DATA_SOURCE_CALLBACK_WRITE \<Rightarrow> s\<lparr>ds_write_enabled := False\<rparr>
        | DATA_SOURCE_CALLBACK_POLL \<Rightarrow> s)"

definition btstack_run_loop_remove_data_source :: "('e, 'd) uart \<Rightarrow> ('e, 'd) uart" where
  "btstack_run_loop_remove_data_source s = emit RemoveDataSource (s\<lparr>ds_registered := False\<rparr>)"

subsection \<open>Block transfer\<close>

text \<open>\<^verbatim>\<open>bytes_written\<close> is what \<^verbatim>\<open>write\<close> returns in this call.\<close>

definition btstack_uart_block_posix_process_write ::
    "int \<Rightarrow> ('e, 'd) uart \<Rightarrow> ('e, 'd) uart" where
  "btstack_uart_block_posix_process_write bytes_written s =
     (if btstack_uart_block_write_bytes_len s = 0 then s
      else
        let s1 = emit (SysWrite (btstack_uart_block_write_bytes_len s)) s in
        if bytes_written = 0 then emit (LogError ''wrote zero bytes'') s1
        else if bytes_written < 0 then
          btstack_run_loop_enable_data_source_callbacks DATA_SOURCE_CALLBACK_WRITE
            (emit (LogError ''write returned error'') s1)
        else
          let s2 = s1\<lparr>btstack_uart_block_write_bytes_data :=
                        btstack_uart_block_write_bytes_data s1 + bytes_written,
                      btstack_uart_block_write_bytes_len :=
                        btstack_uart_block_write_bytes_len s1 - bytes_written\<rparr> in
          if btstack_uart_block_write_bytes_len s2 \<noteq> 0 then
            btstack_run_loop_enable_data_source_callbacks DATA_SOURCE_CALLBACK_WRITE s2
          else
            let s3 = btstack_run_loop_disable_data_source_callbacks
                       DATA_SOURCE_CALLBACK_WRITE s2 in
            if block_sent s3 then emit BlockSent s3 else s3)"

text \<open>
  What \<^verbatim>\<open>read\<close> returns in a call: \<open>None\<close> for a negative value, \<open>Some bs\<close> for the bytes it
  has stored, \<open>length bs\<close> of them (at most the length it was asked for).
\<close>

definition bytes_read_of :: "u8 list option \<Rightarrow> int" where
  "bytes_read_of r = (case r of None \<Rightarrow> - 1 | Some bs \<Rightarrow> int (length bs))"

definition btstack_uart_block_posix_process_read ::
    "u8 list option \<Rightarrow> ('e, 'd) uart \<Rightarrow> ('e, 'd) uart" where
  "btstack_uart_block_posix_process_read r s =
     (let s0 = (if btstack_uart_block_read_bytes_len s = 0 then
                  btstack_run_loop_disable_data_source_callbacks DATA_SOURCE_CALLBACK_READ s
                else s);
          s1 = emit (SysRead (btstack_uart_block_read_bytes_len s0)) s0;
          bytes_read = bytes_read_of r in
      if bytes_read = 0 then emit (LogError ''read zero bytes'') s1
      else if bytes_read < 0 then emit (LogError ''read returned error'') s1
      else
        let s2 = s1\<lparr>btstack_uart_block_read_bytes_len :=
                      nat ((int (btstack_uart_block_read_bytes_len s1) - bytes_read) mod 65536),
                    btstack_uart_block_read_bytes_data :=
                      btstack_uart_block_read_bytes_data s1 + bytes_read\<rparr> in
        if btstack_uart_block_read_bytes_len s2 > 0 then s2
        else
          let s3 = btstack_run_loop_disable_data_source_callbacks
                     DATA_SOURCE_CALLBACK_READ s2 in
          if block_received s3 then emit BlockReceived s3 else s3)"

definition btstack_uart_posix_set_block_received ::
    "bool \<Rightarrow> ('e, 'd) uart \<Rightarrow> ('e, 'd) uart" where
  "btstack_uart_posix_set_block_received block_handler s = s\<lparr>block_received := block_handler\<rparr>"

definition btstack_uart_posix_set_block_sent ::
    "bool \<Rightarrow> ('e, 'd) uart \<Rightarrow> ('e, 'd) uart" where
  "btstack_uart_posix_set_block_sent block_handler s = s\<lparr>block_sent := block_handler\<rparr>"

text \<open>The sizes \<open>sz\<close> and \<open>len\<close> are \<^verbatim>\<open>uint16_t\<close> arguments: below \<open>2 ^ 16\<close>.\<close>

definition btstack_uart_posix_send_block ::
    "int \<Rightarrow> nat \<Rightarrow> ('e, 'd) uart \<Rightarrow> ('e, 'd) uart" where
  "btstack_uart_posix_send_block data sz s =
     btstack_run_loop_enable_data_source_callbacks DATA_SOURCE_CALLBACK_WRITE
       (s\<lparr>btstack_uart_block_write_bytes_data := data,
          btstack_uart_block_write_bytes_len := int sz\<rparr>)"

definition btstack_uart_posix_receive_block ::
    "int \<Rightarrow> nat \<Rightarrow> ('e, 'd) uart \<Rightarrow> ('e, 'd) uart" where
  "btstack_uart_posix_receive_block buffer len s =
     btstack_run_loop_enable_data_source_callbacks DATA_SOURCE_CALLBACK_READ
       (s\<lparr>btstack_uart_block_read_bytes_data := buffer,
          btstack_uart_block_read_bytes_len := len\<rparr>)"

definition btstack_uart_posix_close_new :: "('e, 'd) uart \<Rightarrow> int \<times> ('e, 'd) uart" where
  "btstack_uart_posix_close_new s =
     (let s1 = btstack_run_loop_remove_data_source s;
          s2 = emit (SysClose (ds_fd s1)) s1
      in (0, s2\<lparr>ds_fd := - 1\<rparr>))"

subsection \<open>SLIP frame transfer: sending\<close>

text \<open>
  The loop of \<^verbatim>\<open>btstack_uart_slip_posix_encode_chunk_and_send\<close>. The codec's
  \<^verbatim>\<open>has_data\<close> is a truth value, on which the \<^verbatim>\<open>&\<close> of the source is conjunction.
\<close>

function encode_chunk_loop ::
    "('e, 'd) slip_codec \<Rightarrow> ('e, 'd) uart \<Rightarrow> nat \<Rightarrow> ('e, 'd) uart \<times> nat" where
  "encode_chunk_loop C s pos =
     (if btstack_slip_encoder_has_data C (slip_encoder s) \<and> pos < SLIP_TX_CHUNK_LEN then
        let (byte, e) = btstack_slip_encoder_get_byte C (slip_encoder s) in
        encode_chunk_loop C
          (s\<lparr>btstack_uart_slip_outgoing_buffer :=
               (btstack_uart_slip_outgoing_buffer s)[pos := byte],
             slip_encoder := e\<rparr>)
          (pos + 1)
      else (s, pos))"
  by pat_completeness auto
termination
  by (relation "measure (\<lambda>(C, s, pos). SLIP_TX_CHUNK_LEN - pos)") auto

declare encode_chunk_loop.simps [simp del]

definition btstack_uart_slip_posix_encode_chunk_and_send ::
    "('e, 'd) slip_codec \<Rightarrow> ('e, 'd) uart \<Rightarrow> ('e, 'd) uart" where
  "btstack_uart_slip_posix_encode_chunk_and_send C s =
     (let (s1, pos) = encode_chunk_loop C s 0;
          s2 = emit (LogSlipSend pos) s1
      in btstack_run_loop_enable_data_source_callbacks DATA_SOURCE_CALLBACK_WRITE
           (s2\<lparr>btstack_uart_slip_write_bytes_data := 0,
               btstack_uart_slip_write_bytes_len := int pos\<rparr>))"

definition btstack_uart_slip_posix_block_sent ::
    "('e, 'd) slip_codec \<Rightarrow> ('e, 'd) uart \<Rightarrow> ('e, 'd) uart" where
  "btstack_uart_slip_posix_block_sent C s =
     (if btstack_slip_encoder_has_data C (slip_encoder s) then
        btstack_uart_slip_posix_encode_chunk_and_send C s
      else
        let s1 = s\<lparr>btstack_uart_slip_write_active := False\<rparr> in
        if frame_sent s1 then emit FrameSent s1 else s1)"

definition btstack_uart_slip_posix_process_write ::
    "('e, 'd) slip_codec \<Rightarrow> int \<Rightarrow> ('e, 'd) uart \<Rightarrow> ('e, 'd) uart" where
  "btstack_uart_slip_posix_process_write C bytes_written s =
     (if btstack_uart_slip_write_bytes_len s = 0 then s
      else
        let s1 = emit (SysWrite (btstack_uart_slip_write_bytes_len s)) s in
        if bytes_written < 0 then
          btstack_run_loop_enable_data_source_callbacks DATA_SOURCE_CALLBACK_WRITE s1
        else
          let s2 = s1\<lparr>btstack_uart_slip_write_bytes_data :=
                        btstack_uart_slip_write_bytes_data s1 + bytes_written,
                      btstack_uart_slip_write_bytes_len :=
                        btstack_uart_slip_write_bytes_len s1 - bytes_written\<rparr> in
          if btstack_uart_slip_write_bytes_len s2 \<noteq> 0 then
            btstack_run_loop_enable_data_source_callbacks DATA_SOURCE_CALLBACK_WRITE s2
          else
            btstack_uart_slip_posix_block_sent C
              (btstack_run_loop_disable_data_source_callbacks DATA_SOURCE_CALLBACK_WRITE s2))"

definition btstack_uart_slip_posix_send_frame ::
    "('e, 'd) slip_codec \<Rightarrow> u8 list \<Rightarrow> ('e, 'd) uart \<Rightarrow> ('e, 'd) uart" where
  "btstack_uart_slip_posix_send_frame C frame s =
     btstack_uart_slip_posix_encode_chunk_and_send C
       (s\<lparr>btstack_uart_slip_write_active := True,
          slip_encoder := btstack_slip_encoder_start C frame\<rparr>)"

definition btstack_uart_slip_posix_set_frame_received ::
    "bool \<Rightarrow> ('e, 'd) uart \<Rightarrow> ('e, 'd) uart" where
  "btstack_uart_slip_posix_set_frame_received block_handler s =
     s\<lparr>frame_received := block_handler\<rparr>"

definition btstack_uart_slip_posix_set_frame_sent ::
    "bool \<Rightarrow> ('e, 'd) uart \<Rightarrow> ('e, 'd) uart" where
  "btstack_uart_slip_posix_set_frame_sent block_handler s = s\<lparr>frame_sent := block_handler\<rparr>"

subsection \<open>SLIP frame transfer: receiving\<close>

text \<open>
  The loop of \<^verbatim>\<open>btstack_uart_slip_posix_process_buffer\<close>. The position is below the
  length, a \<^verbatim>\<open>uint16_t\<close>, when it is incremented, so the increment does not wrap. The byte is
  read inside the array as long as the length is at most its 128 bytes.
\<close>

function process_buffer_loop ::
    "('e, 'd) slip_codec \<Rightarrow> ('e, 'd) uart \<Rightarrow> nat \<Rightarrow> ('e, 'd) uart \<times> nat" where
  "process_buffer_loop C s frame_size =
     (if btstack_uart_slip_receive_pos s < btstack_uart_slip_receive_len s \<and> frame_size = 0 then
        let d = btstack_slip_decoder_process C
                  (btstack_uart_slip_receive_buffer s ! btstack_uart_slip_receive_pos s)
                  (slip_decoder s)
        in process_buffer_loop C
             (s\<lparr>btstack_uart_slip_receive_pos := btstack_uart_slip_receive_pos s + 1,
                slip_decoder := d\<rparr>)
             (btstack_slip_decoder_frame_size C d)
      else (s, frame_size))"
  by pat_completeness auto
termination
  by (relation "measure (\<lambda>(C, s, frame_size).
        btstack_uart_slip_receive_len s - btstack_uart_slip_receive_pos s)") auto

declare process_buffer_loop.simps [simp del]

text \<open>
  \<^verbatim>\<open>frame_received\<close> is called without a test for \<^verbatim>\<open>NULL\<close>: with no handler registered the
  call has no defined behaviour, and the result is \<open>None\<close>.
\<close>

definition btstack_uart_slip_posix_process_buffer ::
    "('e, 'd) slip_codec \<Rightarrow> ('e, 'd) uart \<Rightarrow> (('e, 'd) uart \<times> nat) option" where
  "btstack_uart_slip_posix_process_buffer C s =
     (let (s1, frame_size) = process_buffer_loop C s 0;
          s2 = (if btstack_uart_slip_receive_pos s1 = btstack_uart_slip_receive_len s1 then
                  s1\<lparr>btstack_uart_slip_receive_len := 0, btstack_uart_slip_receive_pos := 0\<rparr>
                else s1) in
      if frame_size \<noteq> 0 then
        let s3 = s2\<lparr>btstack_uart_slip_receive_active := False\<rparr> in
        if frame_received s3 then Some (emit (FrameReceived frame_size) s3, frame_size)
        else None
      else Some (s2, frame_size))"

definition btstack_uart_slip_posix_process_read ::
    "('e, 'd) slip_codec \<Rightarrow> u8 list option \<Rightarrow> ('e, 'd) uart \<Rightarrow> ('e, 'd) uart option" where
  "btstack_uart_slip_posix_process_read C r s =
     (let s1 = (if btstack_uart_slip_receive_track_start s \<noteq> 0 then
                  s\<lparr>btstack_uart_slip_receive_track_start := 0\<rparr>
                else s);
          s2 = emit (SysRead SLIP_RECEIVE_BUFFER_SIZE) s1 in
      case r of
        None \<Rightarrow> Some s2
      | Some bs \<Rightarrow>
          map_option fst
            (btstack_uart_slip_posix_process_buffer C
               (s2\<lparr>btstack_uart_slip_receive_buffer :=
                      bs @ drop (length bs) (btstack_uart_slip_receive_buffer s2),
                    btstack_uart_slip_receive_pos := 0,
                    btstack_uart_slip_receive_len := length bs mod 65536\<rparr>)))"

definition btstack_uart_slip_posix_receive_frame ::
    "('e, 'd) slip_codec \<Rightarrow> nat \<Rightarrow> ('e, 'd) uart \<Rightarrow> ('e, 'd) uart option" where
  "btstack_uart_slip_posix_receive_frame C len s =
     (let s1 = s\<lparr>btstack_uart_slip_receive_active := True,
                 btstack_uart_slip_receive_track_start := 1,
                 slip_decoder := btstack_slip_decoder_init C len\<rparr> in
      if btstack_uart_slip_receive_len s1 \<noteq> 0 then
        (case btstack_uart_slip_posix_process_buffer C s1 of
           None \<Rightarrow> None
         | Some (s2, frame_found) \<Rightarrow>
             if frame_found \<noteq> 0 then Some s2
             else Some (btstack_run_loop_enable_data_source_callbacks
                          DATA_SOURCE_CALLBACK_READ s2))
      else Some (btstack_run_loop_enable_data_source_callbacks DATA_SOURCE_CALLBACK_READ s1))"

subsection \<open>The dispatcher\<close>

text \<open>
  A readiness event, as the run loop hands it to \<^verbatim>\<open>hci_uart_posix_process\<close>, together with
  what the system call made in this dispatch returns.
\<close>

datatype readiness = Readable "u8 list option" | Writable int | Polled

definition hci_uart_posix_process ::
    "('e, 'd) slip_codec \<Rightarrow> readiness \<Rightarrow> ('e, 'd) uart \<Rightarrow> ('e, 'd) uart option" where
  "hci_uart_posix_process C ev s =
     (if ds_fd s < 0 then Some s
      else case ev of
        Readable r \<Rightarrow>
          if btstack_uart_slip_receive_active s then btstack_uart_slip_posix_process_read C r s
          else Some (btstack_uart_block_posix_process_read r s)
      | Writable bytes_written \<Rightarrow>
          if btstack_uart_slip_write_active s then
            Some (btstack_uart_slip_posix_process_write C bytes_written s)
          else Some (btstack_uart_block_posix_process_write bytes_written s)
      | Polled \<Rightarrow> Some s)"

text \<open>A run of dispatches, one after the other.\<close>

fun dispatch_all ::
    "('e, 'd) slip_codec \<Rightarrow> readiness list \<Rightarrow> ('e, 'd) uart \<Rightarrow> ('e, 'd) uart option" where
  "dispatch_all C [] s = Some s"
| "dispatch_all C (ev # evs) s =
     (case hci_uart_posix_process C ev s of
        None \<Rightarrow> None
      | Some s' \<Rightarrow> dispatch_all C evs s')"

subsection \<open>Predicates and a concrete session for the statements\<close>

text \<open>
  A block send can go on: the descriptor is open, no frame send is active (so the
  dispatcher hands a write event to the block engine) and a \<^verbatim>\<open>block_sent\<close> handler is
  registered.
\<close>

definition block_write_pending :: "('e, 'd) uart \<Rightarrow> bool" where
  "block_write_pending s \<longleftrightarrow>
     0 \<le> ds_fd s \<and> \<not> btstack_uart_slip_write_active s \<and> block_sent s"

text \<open>
  A session as \<^verbatim>\<open>btstack_uart_posix_open\<close> leaves it when it succeeds, on descriptor 3, with
  the four handlers registered and the codec of the scenario.
\<close>

definition open_session :: "(u8 list, nat \<times> nat) uart" where
  "open_session =
     (startup [] (0, 0))\<lparr>ds_fd := 3, ds_registered := True,
        block_sent := True, block_received := True,
        frame_sent := True, frame_received := True\<rparr>"


text \<open>
  A block receive can go on: the descriptor is open, no frame receive is active (so the
  dispatcher hands a read event to the block engine), a \<^verbatim>\<open>block_received\<close> handler is
  registered, and the remaining length is a \<^verbatim>\<open>uint16_t\<close> value.
\<close>

definition block_read_pending :: "('e, 'd) uart \<Rightarrow> bool" where
  "block_read_pending s \<longleftrightarrow>
     0 \<le> ds_fd s \<and> \<not> btstack_uart_slip_receive_active s \<and> block_received s \<and>
     btstack_uart_block_read_bytes_len s < 65536"

text \<open>The number of bytes a \<^verbatim>\<open>read\<close> has stored: none when it fails.\<close>

definition bytes_got :: "u8 list option \<Rightarrow> nat" where
  "bytes_got r = (case r of None \<Rightarrow> 0 | Some bs \<Rightarrow> length bs)"

text \<open>
  The bytes of the scratch buffer that were read from the device and are not yet fed to
  the decoder: those from the position up to the length.
\<close>

definition scratch_pending :: "('e, 'd) uart \<Rightarrow> u8 list" where
  "scratch_pending s =
     map (\<lambda>i. btstack_uart_slip_receive_buffer s ! i)
       [btstack_uart_slip_receive_pos s ..< btstack_uart_slip_receive_len s]"

text \<open>
  The loop of \<^verbatim>\<open>process_buffer\<close> on a list of bytes: it feeds them in order until the
  decoder reports a frame. The result is the decoder, the number of bytes fed and the frame
  size reported, zero when the bytes run out first.
\<close>

fun feed_until_frame :: "('e, 'd) slip_codec \<Rightarrow> 'd \<Rightarrow> u8 list \<Rightarrow> 'd \<times> nat \<times> nat" where
  "feed_until_frame C d [] = (d, 0, 0)"
| "feed_until_frame C d (b # bs) =
     (let d' = btstack_slip_decoder_process C b d;
          frame_size = btstack_slip_decoder_frame_size C d'
      in if frame_size \<noteq> 0 then (d', 1, frame_size)
         else case feed_until_frame C d' bs of (d'', k, n) \<Rightarrow> (d'', Suc k, n))"

text \<open>
  The invariant of the two cursors: the position is at most the length, the length at most
  the capacity of the scratch buffer, and a position equal to the length means that both
  are zero.
\<close>

definition scratch_inv :: "('e, 'd) uart \<Rightarrow> bool" where
  "scratch_inv s \<longleftrightarrow>
     btstack_uart_slip_receive_pos s \<le> btstack_uart_slip_receive_len s \<and>
     btstack_uart_slip_receive_len s \<le> SLIP_RECEIVE_BUFFER_SIZE \<and>
     (btstack_uart_slip_receive_pos s = btstack_uart_slip_receive_len s \<longrightarrow>
        btstack_uart_slip_receive_pos s = 0 \<and> btstack_uart_slip_receive_len s = 0)"

text \<open>
  A session whose scratch buffer holds five bytes of one read that are not yet fed to the
  decoder: in the scenario's encoding, a frame of two bytes and a frame of one byte.
\<close>

definition buffered_session :: "(u8 list, nat \<times> nat) uart" where
  "buffered_session =
     open_session\<lparr>btstack_uart_slip_receive_buffer := [1, 2, 0xC0, 3, 0xC0] @ replicate 123 0,
                  btstack_uart_slip_receive_len := 5\<rparr>"

text \<open>
  The chunks an encoding of \<open>n\<close> bytes occupies in the chunk buffer: full chunks of
  \<open>SLIP_TX_CHUNK_LEN\<close> bytes and a last one with the bytes left over.
\<close>

function chunk_lengths :: "nat \<Rightarrow> nat list" where
  "chunk_lengths n =
     (if n = 0 then []
      else min SLIP_TX_CHUNK_LEN n # chunk_lengths (n - min SLIP_TX_CHUNK_LEN n))"
  by pat_completeness auto

termination
  by (relation "measure id") (auto simp: SLIP_TX_CHUNK_LEN_def)

declare chunk_lengths.simps [simp del]

text \<open>The chunks submitted, read off the log lines of the chunk writes in a trace.\<close>

fun chunks_submitted :: "effect list \<Rightarrow> nat list" where
  "chunks_submitted [] = []"
| "chunks_submitted (LogSlipSend n # xs) = n # chunks_submitted xs"
| "chunks_submitted (x # xs) = chunks_submitted xs"

text \<open>
  The results \<open>ws\<close> offered to successive write dispatches in frame mode are results of
  \<^verbatim>\<open>write\<close>: each is at least one byte and at most the length asked for in its dispatch.
\<close>

fun write_results_fit ::
    "('e, 'd) slip_codec \<Rightarrow> int list \<Rightarrow> ('e, 'd) uart \<Rightarrow> bool" where
  "write_results_fit C [] s = True"
| "write_results_fit C (w # ws) s =
     (0 < w \<and> w \<le> btstack_uart_slip_write_bytes_len s \<and>
      (case hci_uart_posix_process C (Writable w) s of
         None \<Rightarrow> False
       | Some s' \<Rightarrow> write_results_fit C ws s'))"

text \<open>
  A frame send is under way: the descriptor is open, the send is active, a \<^verbatim>\<open>frame_sent\<close>
  handler is registered, write interest is armed, a chunk of at least one and at most
  \<open>SLIP_TX_CHUNK_LEN\<close> bytes is being written, and the encoder still has the bytes \<open>rest\<close>
  to hand out.
\<close>

definition frame_send_pending ::
    "('e, 'd) slip_codec \<Rightarrow> ('e, 'd) uart \<Rightarrow> u8 list \<Rightarrow> bool" where
  "frame_send_pending C s rest \<longleftrightarrow>
     0 \<le> ds_fd s \<and> btstack_uart_slip_write_active s \<and> frame_sent s \<and>
     ds_write_enabled s \<and>
     encoder_yields C (slip_encoder s) rest \<and>
     0 < btstack_uart_slip_write_bytes_len s \<and>
     btstack_uart_slip_write_bytes_len s \<le> int SLIP_TX_CHUNK_LEN"

section \<open>Lemmas shared by the claims\<close>

lemmas run_loop_defs =
  emit_def btstack_run_loop_enable_data_source_callbacks_def
  btstack_run_loop_disable_data_source_callbacks_def

lemma dispatch_all_append:
  "dispatch_all C (xs @ ys) s =
     (case dispatch_all C xs s of None \<Rightarrow> None | Some s' \<Rightarrow> dispatch_all C ys s')"
  by (induction xs arbitrary: s) (auto split: option.splits)

lemma effects_since_append:
  "trace s' = trace s @ T \<Longrightarrow> effects_since s s' = T"
  by (simp add: effects_since_def)

lemma encode_chunk_loop_no_data:
  "\<not> btstack_slip_encoder_has_data C (slip_encoder s) \<Longrightarrow> encode_chunk_loop C s pos = (s, pos)"
  by (subst encode_chunk_loop.simps) simp

lemma process_buffer_loop_done:
  "\<not> btstack_uart_slip_receive_pos s < btstack_uart_slip_receive_len s \<Longrightarrow>
     process_buffer_loop C s frame_size = (s, frame_size)"
  by (subst process_buffer_loop.simps) simp

subsection \<open>Sums of positive results\<close>

lemma sum_list_pos_int:
  fixes xs :: "int list"
  assumes "\<forall>x\<in>set xs. 0 < x" "xs \<noteq> []"
  shows "0 < sum_list xs"
  using assms by (induction xs) (auto simp: add_pos_nonneg sum_list_nonneg less_imp_le)

lemma sum_list_take_less:
  fixes xs :: "int list"
  assumes "\<forall>x\<in>set xs. 0 < x" "n < length xs"
  shows "sum_list (take n xs) < sum_list xs"
proof -
  have "\<forall>x\<in>set (drop n xs). 0 < x" using assms(1) by (meson in_set_dropD)
  moreover have "drop n xs \<noteq> []" using assms(2) by simp
  ultimately have "0 < sum_list (drop n xs)" by (rule sum_list_pos_int)
  moreover have "sum_list xs = sum_list (take n xs) + sum_list (drop n xs)"
    by (metis append_take_drop_id sum_list_append)
  ultimately show ?thesis by simp
qed

subsection \<open>The decoding loop on lists\<close>

lemma feed_until_frame_length:
  "feed_until_frame C d bs = (d', k, n) \<Longrightarrow>
     k \<le> length bs \<and> (n = 0 \<longrightarrow> k = length bs) \<and> (n \<noteq> 0 \<longrightarrow> 0 < k)"
  by (induction bs arbitrary: d d' k n)
     (auto simp: Let_def split: if_splits prod.splits)

lemma feed_until_frame_completes:
  "decoder_completes C d bs n \<Longrightarrow>
     feed_until_frame C d (bs @ rest) = (decoder_feed C d bs, length bs, n) \<and> n \<noteq> 0"
  by (induction bs arbitrary: d) (auto simp: Let_def split: if_splits)

lemma feed_until_frame_pending:
  "decoder_pending C d bs \<Longrightarrow> feed_until_frame C d bs = (decoder_feed C d bs, length bs, 0)"
  by (induction bs arbitrary: d) (auto simp: Let_def)

lemma feed_until_frame_cases:
  "feed_until_frame C d bs = (d', k, n) \<Longrightarrow>
     (n = 0 \<longrightarrow> decoder_pending C d bs) \<and>
     (n \<noteq> 0 \<longrightarrow> decoder_completes C d (take k bs) n)"
  by (induction bs arbitrary: d d' k n)
     (auto simp: Let_def split: if_splits prod.splits)

lemma scratch_pending_Cons:
  "btstack_uart_slip_receive_pos s < btstack_uart_slip_receive_len s \<Longrightarrow>
     scratch_pending s =
       btstack_uart_slip_receive_buffer s ! btstack_uart_slip_receive_pos s #
       scratch_pending (s\<lparr>btstack_uart_slip_receive_pos := btstack_uart_slip_receive_pos s + 1\<rparr>)"
  by (simp add: scratch_pending_def upt_conv_Cons)

lemma scratch_pending_Nil:
  "\<not> btstack_uart_slip_receive_pos s < btstack_uart_slip_receive_len s \<Longrightarrow>
     scratch_pending s = []"
  by (simp add: scratch_pending_def)

lemma scratch_pending_decoder [simp]:
  "scratch_pending (s\<lparr>slip_decoder := d\<rparr>) = scratch_pending s"
  by (simp add: scratch_pending_def)

lemma scratch_pending_length:
  "length (scratch_pending s) =
     btstack_uart_slip_receive_len s - btstack_uart_slip_receive_pos s"
  by (simp add: scratch_pending_def)

lemma nth_append_prefix_map:
  "map (\<lambda>i. (bs @ rest) ! i) [0 ..< length bs] = bs"
  by (rule nth_equalityI) (simp_all add: nth_append)

lemma process_buffer_loop_feed_gen:
  "process_buffer_loop C s frame_size =
     (if frame_size \<noteq> 0 then (s, frame_size)
      else case feed_until_frame C (slip_decoder s) (scratch_pending s) of
        (d, k, n) \<Rightarrow>
          (s\<lparr>btstack_uart_slip_receive_pos := btstack_uart_slip_receive_pos s + k,
             slip_decoder := d\<rparr>, n))"
proof (induction C s frame_size rule: process_buffer_loop.induct)
  case (1 C s frame_size)
  show ?case
  proof (cases "btstack_uart_slip_receive_pos s < btstack_uart_slip_receive_len s \<and> frame_size = 0")
    case False
    then show ?thesis
      by (subst process_buffer_loop.simps) (auto simp: scratch_pending_Nil)
  next
    case True
    let ?d = "btstack_slip_decoder_process C
                  (btstack_uart_slip_receive_buffer s ! btstack_uart_slip_receive_pos s)
                  (slip_decoder s)"
    let ?s1 = "s\<lparr>btstack_uart_slip_receive_pos := btstack_uart_slip_receive_pos s + 1,
                slip_decoder := ?d\<rparr>"
    have unfold: "process_buffer_loop C s frame_size =
        process_buffer_loop C ?s1 (btstack_slip_decoder_frame_size C ?d)"
      using True by (subst process_buffer_loop.simps) (simp add: Let_def)
    have pend: "scratch_pending s =
       btstack_uart_slip_receive_buffer s ! btstack_uart_slip_receive_pos s #
       scratch_pending ?s1"
      using True scratch_pending_Cons [of s] by (simp add: scratch_pending_def)
    note IH = "1.IH" [OF True refl]
    show ?thesis
      unfolding unfold IH using True
      by (simp add: pend Let_def split: prod.splits)
  qed
qed

lemma process_buffer_loop_feed:
  "process_buffer_loop C s 0 =
     (case feed_until_frame C (slip_decoder s) (scratch_pending s) of
        (d, k, n) \<Rightarrow>
          (s\<lparr>btstack_uart_slip_receive_pos := btstack_uart_slip_receive_pos s + k,
             slip_decoder := d\<rparr>, n))"
  by (subst process_buffer_loop_feed_gen) simp

subsection \<open>What \<^verbatim>\<open>process_buffer\<close>, \<^verbatim>\<open>process_read\<close> and \<^verbatim>\<open>receive_frame\<close> return\<close>

lemma process_buffer_feed:
  "btstack_uart_slip_posix_process_buffer C s =
     (case feed_until_frame C (slip_decoder s) (scratch_pending s) of
        (d, k, n) \<Rightarrow>
          let s2 = (if btstack_uart_slip_receive_pos s + k = btstack_uart_slip_receive_len s
                    then s\<lparr>btstack_uart_slip_receive_pos := 0,
                           btstack_uart_slip_receive_len := 0, slip_decoder := d\<rparr>
                    else s\<lparr>btstack_uart_slip_receive_pos := btstack_uart_slip_receive_pos s + k,
                           slip_decoder := d\<rparr>)
          in if n \<noteq> 0 then
               if frame_received s then
                 Some (s2\<lparr>btstack_uart_slip_receive_active := False,
                          trace := trace s @ [FrameReceived n]\<rparr>, n)
               else None
             else Some (s2, 0))"
  by (simp add: btstack_uart_slip_posix_process_buffer_def process_buffer_loop_feed
        Let_def emit_def split: prod.splits)

lemma process_buffer_total:
  "frame_received s \<Longrightarrow> btstack_uart_slip_posix_process_buffer C s \<noteq> None"
  by (simp add: process_buffer_feed Let_def split: prod.splits)

lemma process_buffer_frame:
  assumes feed: "feed_until_frame C (slip_decoder s) (scratch_pending s) = (d, k, n)"
    and n: "n \<noteq> 0" and cb: "frame_received s"
    and le: "btstack_uart_slip_receive_pos s \<le> btstack_uart_slip_receive_len s"
  shows "\<exists>s'. btstack_uart_slip_posix_process_buffer C s = Some (s', n) \<and>
           trace s' = trace s @ [FrameReceived n] \<and>
           \<not> btstack_uart_slip_receive_active s' \<and>
           ds_read_enabled s' = ds_read_enabled s \<and>
           ds_fd s' = ds_fd s \<and> frame_received s' \<and>
           slip_decoder s' = d \<and>
           scratch_pending s' = drop k (scratch_pending s) \<and>
           btstack_uart_slip_receive_pos s' \<le> btstack_uart_slip_receive_len s' \<and>
           btstack_uart_slip_receive_len s' \<le> btstack_uart_slip_receive_len s \<and>
           (btstack_uart_slip_receive_pos s' = btstack_uart_slip_receive_len s' \<longrightarrow>
              btstack_uart_slip_receive_pos s' = 0 \<and> btstack_uart_slip_receive_len s' = 0)"
proof -
  from feed_until_frame_length [OF feed]
  have k: "k \<le> btstack_uart_slip_receive_len s - btstack_uart_slip_receive_pos s"
    by (simp add: scratch_pending_length)
  show ?thesis
  proof (cases "btstack_uart_slip_receive_pos s + k = btstack_uart_slip_receive_len s")
    case True
    then have "drop k (scratch_pending s) = []"
      by (simp add: scratch_pending_length)
    with True feed n cb show ?thesis
      by (simp add: process_buffer_feed scratch_pending_def)
  next
    case False
    with k le have lt: "btstack_uart_slip_receive_pos s + k < btstack_uart_slip_receive_len s"
      by simp
    have "drop k (scratch_pending s) =
        map (\<lambda>i. btstack_uart_slip_receive_buffer s ! i)
          [btstack_uart_slip_receive_pos s + k ..< btstack_uart_slip_receive_len s]"
      by (simp add: scratch_pending_def drop_map)
    with False lt feed n cb show ?thesis
      by (simp add: process_buffer_feed scratch_pending_def)
  qed
qed

lemma process_buffer_no_frame:
  assumes feed: "feed_until_frame C (slip_decoder s) (scratch_pending s) = (d, k, 0)"
    and le: "btstack_uart_slip_receive_pos s \<le> btstack_uart_slip_receive_len s"
  shows "btstack_uart_slip_posix_process_buffer C s =
           Some (s\<lparr>btstack_uart_slip_receive_pos := 0, btstack_uart_slip_receive_len := 0,
                   slip_decoder := d\<rparr>, 0)"
proof -
  from feed_until_frame_length [OF feed]
  have "k = btstack_uart_slip_receive_len s - btstack_uart_slip_receive_pos s"
    by (simp add: scratch_pending_length)
  with le have "btstack_uart_slip_receive_pos s + k = btstack_uart_slip_receive_len s"
    by simp
  with feed show ?thesis
    by (simp add: process_buffer_feed)
qed

lemma slip_process_read_bytes:
  assumes "length bs < 65536"
  shows "btstack_uart_slip_posix_process_read C (Some bs) s =
           map_option fst
             (btstack_uart_slip_posix_process_buffer C
                (s\<lparr>btstack_uart_slip_receive_track_start := 0,
                   btstack_uart_slip_receive_buffer :=
                     bs @ drop (length bs) (btstack_uart_slip_receive_buffer s),
                   btstack_uart_slip_receive_pos := 0,
                   btstack_uart_slip_receive_len := length bs,
                   trace := trace s @ [SysRead SLIP_RECEIVE_BUFFER_SIZE]\<rparr>))"
proof -
  have "(emit (SysRead SLIP_RECEIVE_BUFFER_SIZE)
           (if btstack_uart_slip_receive_track_start s \<noteq> 0
            then s\<lparr>btstack_uart_slip_receive_track_start := 0\<rparr> else s))
          \<lparr>btstack_uart_slip_receive_buffer :=
             bs @ drop (length bs)
               (btstack_uart_slip_receive_buffer
                 (emit (SysRead SLIP_RECEIVE_BUFFER_SIZE)
                   (if btstack_uart_slip_receive_track_start s \<noteq> 0
                    then s\<lparr>btstack_uart_slip_receive_track_start := 0\<rparr> else s))),
           btstack_uart_slip_receive_pos := 0,
           btstack_uart_slip_receive_len := length bs mod 65536\<rparr> =
        s\<lparr>btstack_uart_slip_receive_track_start := 0,
          btstack_uart_slip_receive_buffer :=
            bs @ drop (length bs) (btstack_uart_slip_receive_buffer s),
          btstack_uart_slip_receive_pos := 0,
          btstack_uart_slip_receive_len := length bs,
          trace := trace s @ [SysRead SLIP_RECEIVE_BUFFER_SIZE]\<rparr>"
    using assms by (intro uart.equality) (simp_all add: emit_def)
  then show ?thesis
    by (simp add: btstack_uart_slip_posix_process_read_def Let_def)
qed

lemma receive_frame_buffered:
  assumes lt: "btstack_uart_slip_receive_pos s < btstack_uart_slip_receive_len s"
    and cb: "frame_received s"
    and feed: "feed_until_frame C (btstack_slip_decoder_init C len) (scratch_pending s) = (d, k, m)"
  shows "(m \<noteq> 0 \<longrightarrow>
            (\<exists>s'. btstack_uart_slip_posix_receive_frame C len s = Some s' \<and>
                 trace s' = trace s @ [FrameReceived m] \<and>
                 ds_read_enabled s' = ds_read_enabled s \<and>
                 scratch_pending s' = drop k (scratch_pending s))) \<and>
         (m = 0 \<longrightarrow>
            (\<exists>s'. btstack_uart_slip_posix_receive_frame C len s = Some s' \<and>
                 trace s' = trace s @ [Enable DATA_SOURCE_CALLBACK_READ] \<and>
                 ds_read_enabled s' \<and> scratch_pending s' = []))"
proof -
  let ?s1 = "s\<lparr>btstack_uart_slip_receive_active := True,
                 btstack_uart_slip_receive_track_start := 1,
                 slip_decoder := btstack_slip_decoder_init C len\<rparr>"
  have pend: "scratch_pending ?s1 = scratch_pending s"
    by (simp add: scratch_pending_def)
  have le: "btstack_uart_slip_receive_pos ?s1 \<le> btstack_uart_slip_receive_len ?s1"
    using lt by simp
  have rf: "btstack_uart_slip_posix_receive_frame C len s =
      (case btstack_uart_slip_posix_process_buffer C ?s1 of
         None \<Rightarrow> None
       | Some (s2, frame_found) \<Rightarrow>
           if frame_found \<noteq> 0 then Some s2
           else Some (btstack_run_loop_enable_data_source_callbacks
                        DATA_SOURCE_CALLBACK_READ s2))"
    using lt by (simp add: btstack_uart_slip_posix_receive_frame_def)
  from feed have feed1: "feed_until_frame C (slip_decoder ?s1) (scratch_pending ?s1) = (d, k, m)"
    by (simp add: scratch_pending_def)
  have found: "\<exists>s'. btstack_uart_slip_posix_receive_frame C len s = Some s' \<and>
                 trace s' = trace s @ [FrameReceived m] \<and>
                 ds_read_enabled s' = ds_read_enabled s \<and>
                 scratch_pending s' = drop k (scratch_pending s)" if "m \<noteq> 0"
  proof -
    from process_buffer_frame [OF feed1 that _ le] cb
    obtain s' where s': "btstack_uart_slip_posix_process_buffer C ?s1 = Some (s', m)"
        "trace s' = trace ?s1 @ [FrameReceived m]"
        "ds_read_enabled s' = ds_read_enabled ?s1"
        "scratch_pending s' = drop k (scratch_pending ?s1)"
      by auto
    have "btstack_uart_slip_posix_receive_frame C len s = Some s'"
      using rf s'(1) that by simp
    then show ?thesis using s'(2,3,4) pend by auto
  qed
  have none: "\<exists>s'. btstack_uart_slip_posix_receive_frame C len s = Some s' \<and>
                 trace s' = trace s @ [Enable DATA_SOURCE_CALLBACK_READ] \<and>
                 ds_read_enabled s' \<and> scratch_pending s' = []" if "m = 0"
  proof -
    from process_buffer_no_frame [OF _ le, of C d k] feed1 that
    have "btstack_uart_slip_posix_process_buffer C ?s1 =
        Some (?s1\<lparr>btstack_uart_slip_receive_pos := 0, btstack_uart_slip_receive_len := 0,
                   slip_decoder := d\<rparr>, 0)"
      by simp
    then show ?thesis
      using rf by (simp add: run_loop_defs scratch_pending_def)
  qed
  from found none show ?thesis by blast
qed

subsection \<open>The chunk loop changes the chunk buffer and the encoder only\<close>

lemma encode_chunk_loop_frame:
  "\<exists>buf e k. encode_chunk_loop C s pos =
     (s\<lparr>btstack_uart_slip_outgoing_buffer := buf, slip_encoder := e\<rparr>, k)"
proof (induction C s pos rule: encode_chunk_loop.induct)
  case (1 C s pos)
  show ?case
  proof (cases "btstack_slip_encoder_has_data C (slip_encoder s) \<and> pos < SLIP_TX_CHUNK_LEN")
    case True
    obtain byte e where g: "(byte, e) = btstack_slip_encoder_get_byte C (slip_encoder s)"
      by (cases "btstack_slip_encoder_get_byte C (slip_encoder s)") simp
    from "1.IH" [OF True refl g]
    obtain buf e' k where "encode_chunk_loop C
          (s\<lparr>btstack_uart_slip_outgoing_buffer :=
               (btstack_uart_slip_outgoing_buffer s)[pos := byte],
             slip_encoder := e\<rparr>) (pos + 1) =
        (s\<lparr>btstack_uart_slip_outgoing_buffer := buf, slip_encoder := e'\<rparr>, k)"
      by auto
    with True g [symmetric] show ?thesis
      by (subst encode_chunk_loop.simps) auto
  next
    case False
    have "s = s\<lparr>btstack_uart_slip_outgoing_buffer := btstack_uart_slip_outgoing_buffer s,
                  slip_encoder := slip_encoder s\<rparr>"
      by simp
    with False show ?thesis
      by (subst encode_chunk_loop.simps) (metis (full_types))
  qed
qed

lemma encode_chunk_loop_receive_pos:
  "btstack_uart_slip_receive_pos (fst (encode_chunk_loop C s pos)) =
     btstack_uart_slip_receive_pos s"
  using encode_chunk_loop_frame [of C s pos] by auto

lemma encode_chunk_loop_receive_len:
  "btstack_uart_slip_receive_len (fst (encode_chunk_loop C s pos)) =
     btstack_uart_slip_receive_len s"
  using encode_chunk_loop_frame [of C s pos] by auto

subsection \<open>The concrete sessions\<close>

lemma buffered_session_pending:
  "scratch_pending buffered_session = [1, 2, 0xC0, 3, 0xC0]"
  by (simp add: scratch_pending_def buffered_session_def open_session_def startup_def
        upt_conv_Cons)

lemma buffered_session_fields:
  "btstack_uart_slip_receive_pos buffered_session = 0"
  "btstack_uart_slip_receive_len buffered_session = 5"
  "frame_received buffered_session"
  "slip_decoder buffered_session = (0, 0)"
  "0 \<le> ds_fd buffered_session"
  by (simp_all add: buffered_session_def open_session_def startup_def)

lemma scenario_decoder_first_frame:
  "decoder_completes scenario_codec (0, 0) [1, 2, 0xC0] 2"
  by (simp add: scenario_codec_def Let_def)

lemma scenario_decoder_second_frame:
  "decoder_completes scenario_codec (0, 0) [3, 0xC0] 1"
  by (simp add: scenario_codec_def Let_def)

section \<open>Block send (C1)\<close>

lemma block_write_step_partial:
  assumes "block_write_pending s"
    and "0 < r" "r < btstack_uart_block_write_bytes_len s"
  shows "\<exists>s'. hci_uart_posix_process C (Writable r) s = Some s' \<and>
           block_write_pending s' \<and>
           btstack_uart_block_write_bytes_len s' = btstack_uart_block_write_bytes_len s - r \<and>
           ds_write_enabled s' \<and>
           trace s' = trace s @ [SysWrite (btstack_uart_block_write_bytes_len s),
                                 Enable DATA_SOURCE_CALLBACK_WRITE]"
  using assms
  by (simp add: hci_uart_posix_process_def btstack_uart_block_posix_process_write_def
        run_loop_defs Let_def block_write_pending_def)

lemma block_write_step_final:
  assumes "block_write_pending s"
    and "0 < r" "r = btstack_uart_block_write_bytes_len s"
  shows "\<exists>s'. hci_uart_posix_process C (Writable r) s = Some s' \<and>
           btstack_uart_block_write_bytes_len s' = 0 \<and>
           \<not> ds_write_enabled s' \<and>
           trace s' = trace s @ [SysWrite (btstack_uart_block_write_bytes_len s),
                                 Disable DATA_SOURCE_CALLBACK_WRITE, BlockSent]"
  using assms
  by (simp add: hci_uart_posix_process_def btstack_uart_block_posix_process_write_def
        run_loop_defs Let_def block_write_pending_def)

lemma block_write_partial:
  assumes "block_write_pending s"
    and "\<forall>r\<in>set rs. 0 < r" "sum_list rs < btstack_uart_block_write_bytes_len s"
  shows "\<exists>s' T. dispatch_all C (map Writable rs) s = Some s' \<and>
           block_write_pending s' \<and>
           btstack_uart_block_write_bytes_len s' =
             btstack_uart_block_write_bytes_len s - sum_list rs \<and>
           (ds_write_enabled s \<longrightarrow> ds_write_enabled s') \<and>
           trace s' = trace s @ T \<and>
           BlockSent \<notin> set T \<and> Disable DATA_SOURCE_CALLBACK_WRITE \<notin> set T"
  using assms
proof (induction rs arbitrary: s)
  case Nil
  then show ?case by simp
next
  case (Cons r rs)
  have pos: "0 < r" and pos': "\<forall>x\<in>set rs. 0 < x" using Cons.prems(2) by simp_all
  from pos' have "0 \<le> sum_list rs" by (simp add: sum_list_nonneg less_imp_le)
  with Cons.prems(3) have lt: "r < btstack_uart_block_write_bytes_len s" by simp
  from block_write_step_partial [OF Cons.prems(1) pos lt, of C]
  obtain s1 where s1: "hci_uart_posix_process C (Writable r) s = Some s1"
      "block_write_pending s1"
      "btstack_uart_block_write_bytes_len s1 = btstack_uart_block_write_bytes_len s - r"
      "ds_write_enabled s1"
      "trace s1 = trace s @ [SysWrite (btstack_uart_block_write_bytes_len s),
                             Enable DATA_SOURCE_CALLBACK_WRITE]"
    by blast
  have "sum_list rs < btstack_uart_block_write_bytes_len s1"
    using Cons.prems(3) s1(3) by simp
  from Cons.IH [OF s1(2) pos' this]
  obtain s' T where s': "dispatch_all C (map Writable rs) s1 = Some s'"
      "block_write_pending s'"
      "btstack_uart_block_write_bytes_len s' =
         btstack_uart_block_write_bytes_len s1 - sum_list rs"
      "ds_write_enabled s1 \<longrightarrow> ds_write_enabled s'"
      "trace s' = trace s1 @ T"
      "BlockSent \<notin> set T" "Disable DATA_SOURCE_CALLBACK_WRITE \<notin> set T"
    by blast
  have a: "dispatch_all C (map Writable (r # rs)) s = Some s'"
    using s1(1) s'(1) by simp
  have b: "btstack_uart_block_write_bytes_len s' =
             btstack_uart_block_write_bytes_len s - sum_list (r # rs)"
    using s1(3) s'(3) by simp
  have c: "trace s' = trace s @ (SysWrite (btstack_uart_block_write_bytes_len s) #
             Enable DATA_SOURCE_CALLBACK_WRITE # T)"
    using s1(5) s'(5) by simp
  have d: "BlockSent \<notin> set (SysWrite (btstack_uart_block_write_bytes_len s) #
             Enable DATA_SOURCE_CALLBACK_WRITE # T)"
     "Disable DATA_SOURCE_CALLBACK_WRITE \<notin> set (SysWrite (btstack_uart_block_write_bytes_len s) #
             Enable DATA_SOURCE_CALLBACK_WRITE # T)"
    using s'(6,7) by simp_all
  from a b c d s'(2) s'(4) s1(4) show ?case by blast
qed


lemma send_block_pending:
  assumes "0 \<le> ds_fd s" "\<not> btstack_uart_slip_write_active s" "block_sent s"
  shows "block_write_pending (btstack_uart_posix_send_block data L s)"
    and "btstack_uart_block_write_bytes_len (btstack_uart_posix_send_block data L s) = int L"
    and "ds_write_enabled (btstack_uart_posix_send_block data L s)"
  using assms
  by (simp_all add: btstack_uart_posix_send_block_def run_loop_defs block_write_pending_def)

text \<open>
  C1. A block send of \<open>L\<close> bytes is completed by \<open>N \<ge> 1\<close> write dispatches whose results
  \<open>rs\<close> are positive and sum to \<open>L\<close>. Then the effects since \<^verbatim>\<open>send_block\<close> end with the
  disarming of write interest followed at once by the one \<^verbatim>\<open>block_sent\<close> callback, which
  does not occur before; and after any number of the dispatches short of all the callback
  has not been called, the remaining length is positive and write interest is armed. So the callback
  fires exactly once, in the dispatch in which the remaining length reaches zero.
\<close>

theorem block_sent_fires_once_on_last_write:
  fixes s :: "('e, 'd) uart" and rs :: "int list" and L :: nat
  assumes "0 \<le> ds_fd s" "\<not> btstack_uart_slip_write_active s" "block_sent s"
    and "rs \<noteq> []" "\<forall>r\<in>set rs. 0 < r" "sum_list rs = int L"
  shows "(\<exists>s' T. dispatch_all C (map Writable rs) (btstack_uart_posix_send_block data L s) = Some s' \<and>
            effects_since (btstack_uart_posix_send_block data L s) s' =
              T @ [Disable DATA_SOURCE_CALLBACK_WRITE, BlockSent] \<and>
            BlockSent \<notin> set T \<and>
            btstack_uart_block_write_bytes_len s' = 0 \<and> \<not> ds_write_enabled s') \<and>
         (\<forall>n<length rs. \<exists>sn.
            dispatch_all C (map Writable (take n rs)) (btstack_uart_posix_send_block data L s) = Some sn \<and>
            BlockSent \<notin> set (effects_since (btstack_uart_posix_send_block data L s) sn) \<and>
            0 < btstack_uart_block_write_bytes_len sn \<and> ds_write_enabled sn)"
proof -
  let ?s0 = "btstack_uart_posix_send_block data L s"
  note s0 = send_block_pending [OF assms(1-3), of data L]
  have before: "\<exists>sn T. dispatch_all C (map Writable (take n rs)) ?s0 = Some sn \<and>
      block_write_pending sn \<and>
      btstack_uart_block_write_bytes_len sn = int L - sum_list (take n rs) \<and>
      ds_write_enabled sn \<and> trace sn = trace ?s0 @ T \<and> BlockSent \<notin> set T"
    if "n < length rs" for n
  proof -
    have "\<forall>r\<in>set (take n rs). 0 < r" using assms(5) by (meson in_set_takeD)
    moreover have "sum_list (take n rs) < btstack_uart_block_write_bytes_len ?s0"
      using sum_list_take_less [OF assms(5) that] assms(6) s0(2) by simp
    ultimately show ?thesis
      using block_write_partial [OF s0(1), of "take n rs" C] s0(2,3) by force
  qed
  have part2: "\<forall>n<length rs. \<exists>sn.
            dispatch_all C (map Writable (take n rs)) ?s0 = Some sn \<and>
            BlockSent \<notin> set (effects_since ?s0 sn) \<and>
            0 < btstack_uart_block_write_bytes_len sn \<and> ds_write_enabled sn"
  proof (intro allI impI)
    fix n assume n: "n < length rs"
    from before [OF n] obtain sn T where sn:
      "dispatch_all C (map Writable (take n rs)) ?s0 = Some sn"
      "btstack_uart_block_write_bytes_len sn = int L - sum_list (take n rs)"
      "ds_write_enabled sn" "trace sn = trace ?s0 @ T" "BlockSent \<notin> set T"
      by blast
    have "0 < btstack_uart_block_write_bytes_len sn"
      using sum_list_take_less [OF assms(5) n] assms(6) sn(2) by simp
    with sn effects_since_append [OF sn(4)]
    show "\<exists>sn. dispatch_all C (map Writable (take n rs)) ?s0 = Some sn \<and>
            BlockSent \<notin> set (effects_since ?s0 sn) \<and>
            0 < btstack_uart_block_write_bytes_len sn \<and> ds_write_enabled sn"
      by auto
  qed
  have n1: "length rs - 1 < length rs" using assms(4) by simp
  from before [OF n1] obtain s1 T where s1:
      "dispatch_all C (map Writable (butlast rs)) ?s0 = Some s1"
      "block_write_pending s1"
      "btstack_uart_block_write_bytes_len s1 = int L - sum_list (butlast rs)"
      "trace s1 = trace ?s0 @ T" "BlockSent \<notin> set T"
    by (auto simp: butlast_conv_take)
  have split: "rs = butlast rs @ [last rs]" using assms(4) by simp
  have "sum_list rs = sum_list (butlast rs) + last rs"
    by (subst split) (simp only: sum_list_append sum_list.Cons sum_list.Nil add_0_right)
  with assms(6) s1(3) have last_eq: "last rs = btstack_uart_block_write_bytes_len s1" by simp
  have last_pos: "0 < last rs" using assms(4,5) by simp
  from block_write_step_final [OF s1(2) last_pos last_eq, of C]
  obtain s' where s': "hci_uart_posix_process C (Writable (last rs)) s1 = Some s'"
      "btstack_uart_block_write_bytes_len s' = 0" "\<not> ds_write_enabled s'"
      "trace s' = trace s1 @ [SysWrite (btstack_uart_block_write_bytes_len s1),
                                 Disable DATA_SOURCE_CALLBACK_WRITE, BlockSent]"
    by blast
  have run: "dispatch_all C (map Writable rs) ?s0 = Some s'"
    by (subst split) (simp add: dispatch_all_append s1(1) s'(1))
  have tr: "trace s' = trace ?s0 @ ((T @ [SysWrite (btstack_uart_block_write_bytes_len s1)]) @
      [Disable DATA_SOURCE_CALLBACK_WRITE, BlockSent])"
    using s'(4) s1(4) by simp
  have "BlockSent \<notin> set (T @ [SysWrite (btstack_uart_block_write_bytes_len s1)])"
    using s1(5) by simp
  with run effects_since_append [OF tr] s'(2,3)
  have part1: "\<exists>s' T. dispatch_all C (map Writable rs) ?s0 = Some s' \<and>
            effects_since ?s0 s' = T @ [Disable DATA_SOURCE_CALLBACK_WRITE, BlockSent] \<and>
            BlockSent \<notin> set T \<and>
            btstack_uart_block_write_bytes_len s' = 0 \<and> \<not> ds_write_enabled s'"
    by blast
  from part1 part2 show ?thesis by (rule conjI)
qed

theorem block_sent_fires_once_on_last_write_witness:
  "\<exists>s' T. dispatch_all scenario_codec (map Writable [3, 7])
             (btstack_uart_posix_send_block 0 10 open_session) = Some s' \<and>
          effects_since (btstack_uart_posix_send_block 0 10 open_session) s' =
            T @ [Disable DATA_SOURCE_CALLBACK_WRITE, BlockSent] \<and>
          BlockSent \<notin> set T \<and>
          btstack_uart_block_write_bytes_len s' = 0 \<and> \<not> ds_write_enabled s'"
proof -
  have "0 \<le> ds_fd open_session" "\<not> btstack_uart_slip_write_active open_session"
    "block_sent open_session"
    by (simp_all add: open_session_def startup_def)
  moreover have "[3, 7 :: int] \<noteq> []" "\<forall>r\<in>set [3, 7 :: int]. 0 < r"
    "sum_list [3, 7 :: int] = int 10"
    by simp_all
  ultimately show ?thesis
    using block_sent_fires_once_on_last_write
      [of open_session "[3, 7]" 10 scenario_codec 0]
    by blast
qed


section \<open>Block receive (C2)\<close>

lemma block_read_step_partial:
  assumes "block_read_pending s" "bytes_got r < btstack_uart_block_read_bytes_len s"
  shows "\<exists>s' T. hci_uart_posix_process C (Readable r) s = Some s' \<and>
           block_read_pending s' \<and>
           btstack_uart_block_read_bytes_len s' = btstack_uart_block_read_bytes_len s - bytes_got r \<and>
           ds_read_enabled s' = ds_read_enabled s \<and>
           trace s' = trace s @ T \<and>
           BlockReceived \<notin> set T \<and> Disable DATA_SOURCE_CALLBACK_READ \<notin> set T"
proof (cases r)
  case None
  then show ?thesis
    using assms
    by (simp add: hci_uart_posix_process_def btstack_uart_block_posix_process_read_def
        run_loop_defs Let_def block_read_pending_def bytes_got_def bytes_read_of_def)
next
  case (Some bs)
  have m: "(int (btstack_uart_block_read_bytes_len s) - int (length bs)) mod 65536 =
        int (btstack_uart_block_read_bytes_len s) - int (length bs)"
    using assms Some by (simp add: block_read_pending_def bytes_got_def)
  have m2: "nat (int (btstack_uart_block_read_bytes_len s) - int (length bs)) =
        btstack_uart_block_read_bytes_len s - length bs"
    by arith
  have m3: "btstack_uart_block_read_bytes_len s - length bs < 65536"
    using assms by (simp add: block_read_pending_def less_imp_diff_less)
  show ?thesis
    using assms Some m m2 m3
    by (cases "bs = []")
       (simp_all add: hci_uart_posix_process_def btstack_uart_block_posix_process_read_def
        run_loop_defs Let_def block_read_pending_def bytes_got_def bytes_read_of_def)
qed

lemma block_read_step_final:
  assumes "block_read_pending s" "0 < length bs"
    and "length bs = btstack_uart_block_read_bytes_len s"
  shows "\<exists>s'. hci_uart_posix_process C (Readable (Some bs)) s = Some s' \<and>
           btstack_uart_block_read_bytes_len s' = 0 \<and>
           \<not> ds_read_enabled s' \<and>
           trace s' = trace s @ [SysRead (btstack_uart_block_read_bytes_len s),
                                 Disable DATA_SOURCE_CALLBACK_READ, BlockReceived]"
  using assms
  by (simp add: hci_uart_posix_process_def btstack_uart_block_posix_process_read_def
        run_loop_defs Let_def block_read_pending_def bytes_read_of_def)

lemma block_read_partial:
  assumes "block_read_pending s"
    and "sum_list (map bytes_got rs) < btstack_uart_block_read_bytes_len s"
  shows "\<exists>s' T. dispatch_all C (map Readable rs) s = Some s' \<and>
           block_read_pending s' \<and>
           btstack_uart_block_read_bytes_len s' =
             btstack_uart_block_read_bytes_len s - sum_list (map bytes_got rs) \<and>
           ds_read_enabled s' = ds_read_enabled s \<and>
           trace s' = trace s @ T \<and>
           BlockReceived \<notin> set T \<and> Disable DATA_SOURCE_CALLBACK_READ \<notin> set T"
  using assms
proof (induction rs arbitrary: s)
  case Nil
  then show ?case by simp
next
  case (Cons r rs)
  have lt: "bytes_got r < btstack_uart_block_read_bytes_len s"
    using Cons.prems(2) by simp
  from block_read_step_partial [OF Cons.prems(1) lt, of C]
  obtain s1 T1 where s1: "hci_uart_posix_process C (Readable r) s = Some s1"
      "block_read_pending s1"
      "btstack_uart_block_read_bytes_len s1 = btstack_uart_block_read_bytes_len s - bytes_got r"
      "ds_read_enabled s1 = ds_read_enabled s"
      "trace s1 = trace s @ T1"
      "BlockReceived \<notin> set T1" "Disable DATA_SOURCE_CALLBACK_READ \<notin> set T1"
    by blast
  have "sum_list (map bytes_got rs) < btstack_uart_block_read_bytes_len s1"
    using Cons.prems(2) s1(3) by simp
  from Cons.IH [OF s1(2) this]
  obtain s' T where s': "dispatch_all C (map Readable rs) s1 = Some s'"
      "block_read_pending s'"
      "btstack_uart_block_read_bytes_len s' =
         btstack_uart_block_read_bytes_len s1 - sum_list (map bytes_got rs)"
      "ds_read_enabled s' = ds_read_enabled s1"
      "trace s' = trace s1 @ T"
      "BlockReceived \<notin> set T" "Disable DATA_SOURCE_CALLBACK_READ \<notin> set T"
    by blast
  have a: "dispatch_all C (map Readable (r # rs)) s = Some s'"
    using s1(1) s'(1) by simp
  have b: "btstack_uart_block_read_bytes_len s' =
             btstack_uart_block_read_bytes_len s - sum_list (map bytes_got (r # rs))"
    using s1(3) s'(3) by simp
  have c: "trace s' = trace s @ (T1 @ T)"
    using s1(5) s'(5) by simp
  have d: "BlockReceived \<notin> set (T1 @ T)"
     "Disable DATA_SOURCE_CALLBACK_READ \<notin> set (T1 @ T)"
    using s'(6,7) s1(6,7) by simp_all
  have e: "ds_read_enabled s' = ds_read_enabled s" using s1(4) s'(4) by simp
  from a b c d e s'(2) show ?case by blast
qed

lemma receive_block_pending:
  assumes "0 \<le> ds_fd s" "\<not> btstack_uart_slip_receive_active s" "block_received s"
    and "L < 65536"
  shows "block_read_pending (btstack_uart_posix_receive_block buffer L s)"
    and "btstack_uart_block_read_bytes_len (btstack_uart_posix_receive_block buffer L s) = L"
    and "ds_read_enabled (btstack_uart_posix_receive_block buffer L s)"
  using assms
  by (simp_all add: btstack_uart_posix_receive_block_def run_loop_defs block_read_pending_def)

lemma sum_list_take_le_nat:
  fixes xs :: "nat list"
  shows "sum_list (take n xs) \<le> sum_list xs"
  by (metis append_take_drop_id le_add1 sum_list_append)

text \<open>
  C2, as amended. A block receive of \<open>L > 0\<close> bytes is followed by read dispatches with the
  results \<open>rs\<close> (failed and empty reads among them) whose bytes sum to \<open>L\<close>, the last of them
  a read that stores bytes. Then the effects since \<^verbatim>\<open>receive_block\<close> end with the disarming
  of read interest followed at once by the one \<^verbatim>\<open>block_received\<close> callback, which does not
  occur before; and after any number of the dispatches short of all the callback has not
  been called and the remaining length, \<open>L\<close> less the bytes read so far, is positive.
\<close>

theorem block_received_fires_once_when_filled:
  fixes s :: "('e, 'd) uart" and rs :: "u8 list option list" and L :: nat
  assumes "0 \<le> ds_fd s" "\<not> btstack_uart_slip_receive_active s" "block_received s"
    and "0 < L" "L < 65536"
    and "rs \<noteq> []" "0 < bytes_got (last rs)" "sum_list (map bytes_got rs) = L"
  shows "(\<exists>s' T. dispatch_all C (map Readable rs) (btstack_uart_posix_receive_block buffer L s) = Some s' \<and>
            effects_since (btstack_uart_posix_receive_block buffer L s) s' =
              T @ [Disable DATA_SOURCE_CALLBACK_READ, BlockReceived] \<and>
            BlockReceived \<notin> set T \<and>
            btstack_uart_block_read_bytes_len s' = 0 \<and> \<not> ds_read_enabled s') \<and>
         (\<forall>n<length rs. \<exists>sn.
            dispatch_all C (map Readable (take n rs)) (btstack_uart_posix_receive_block buffer L s) = Some sn \<and>
            BlockReceived \<notin> set (effects_since (btstack_uart_posix_receive_block buffer L s) sn) \<and>
            btstack_uart_block_read_bytes_len sn = L - sum_list (map bytes_got (take n rs)) \<and>
            0 < btstack_uart_block_read_bytes_len sn \<and> ds_read_enabled sn)"
proof -
  let ?s0 = "btstack_uart_posix_receive_block buffer L s"
  note s0 = receive_block_pending [OF assms(1-3,5), of buffer]
  have split: "rs = butlast rs @ [last rs]" using assms(6) by simp
  have total: "sum_list (map bytes_got rs) = sum_list (map bytes_got (butlast rs)) + bytes_got (last rs)"
    by (subst split) (simp only: map_append sum_list_append list.map sum_list.Cons sum_list.Nil add_0_right)
  have less: "sum_list (map bytes_got (take n rs)) < L" if "n < length rs" for n
  proof -
    have "take n rs = take n (butlast rs)" using that by (simp add: take_butlast)
    then have "sum_list (map bytes_got (take n rs)) \<le> sum_list (map bytes_got (butlast rs))"
      by (simp add: take_map [symmetric] sum_list_take_le_nat)
    with total assms(7,8) show ?thesis by simp
  qed
  have before: "\<exists>sn T. dispatch_all C (map Readable (take n rs)) ?s0 = Some sn \<and>
      block_read_pending sn \<and>
      btstack_uart_block_read_bytes_len sn = L - sum_list (map bytes_got (take n rs)) \<and>
      ds_read_enabled sn \<and> trace sn = trace ?s0 @ T \<and> BlockReceived \<notin> set T"
    if "n < length rs" for n
    using block_read_partial [OF s0(1), of "take n rs" C] less [OF that] s0(2,3) by force
  have part2: "\<forall>n<length rs. \<exists>sn.
            dispatch_all C (map Readable (take n rs)) ?s0 = Some sn \<and>
            BlockReceived \<notin> set (effects_since ?s0 sn) \<and>
            btstack_uart_block_read_bytes_len sn = L - sum_list (map bytes_got (take n rs)) \<and>
            0 < btstack_uart_block_read_bytes_len sn \<and> ds_read_enabled sn"
  proof (intro allI impI)
    fix n assume n: "n < length rs"
    from before [OF n] obtain sn T where sn:
      "dispatch_all C (map Readable (take n rs)) ?s0 = Some sn"
      "btstack_uart_block_read_bytes_len sn = L - sum_list (map bytes_got (take n rs))"
      "ds_read_enabled sn" "trace sn = trace ?s0 @ T" "BlockReceived \<notin> set T"
      by blast
    have "0 < btstack_uart_block_read_bytes_len sn"
      using less [OF n] sn(2) by simp
    with sn effects_since_append [OF sn(4)]
    show "\<exists>sn. dispatch_all C (map Readable (take n rs)) ?s0 = Some sn \<and>
            BlockReceived \<notin> set (effects_since ?s0 sn) \<and>
            btstack_uart_block_read_bytes_len sn = L - sum_list (map bytes_got (take n rs)) \<and>
            0 < btstack_uart_block_read_bytes_len sn \<and> ds_read_enabled sn"
      by auto
  qed
  have n1: "length rs - 1 < length rs" using assms(6) by simp
  from before [OF n1] obtain s1 T where s1:
      "dispatch_all C (map Readable (butlast rs)) ?s0 = Some s1"
      "block_read_pending s1"
      "btstack_uart_block_read_bytes_len s1 = L - sum_list (map bytes_got (butlast rs))"
      "trace s1 = trace ?s0 @ T" "BlockReceived \<notin> set T"
    by (auto simp: butlast_conv_take)
  from assms(7) obtain bs where bs: "last rs = Some bs" "0 < length bs"
    by (cases "last rs") (simp_all add: bytes_got_def)
  have last_eq: "length bs = btstack_uart_block_read_bytes_len s1"
    using total assms(8) s1(3) bs by (simp add: bytes_got_def)
  from block_read_step_final [OF s1(2) bs(2) last_eq, of C]
  obtain s' where s': "hci_uart_posix_process C (Readable (last rs)) s1 = Some s'"
      "btstack_uart_block_read_bytes_len s' = 0" "\<not> ds_read_enabled s'"
      "trace s' = trace s1 @ [SysRead (btstack_uart_block_read_bytes_len s1),
                                 Disable DATA_SOURCE_CALLBACK_READ, BlockReceived]"
    using bs(1) by auto
  have run: "dispatch_all C (map Readable rs) ?s0 = Some s'"
    by (subst split) (simp add: dispatch_all_append s1(1) s'(1))
  have tr: "trace s' = trace ?s0 @ ((T @ [SysRead (btstack_uart_block_read_bytes_len s1)]) @
      [Disable DATA_SOURCE_CALLBACK_READ, BlockReceived])"
    using s'(4) s1(4) by simp
  have "BlockReceived \<notin> set (T @ [SysRead (btstack_uart_block_read_bytes_len s1)])"
    using s1(5) by simp
  with run effects_since_append [OF tr] s'(2,3)
  have part1: "\<exists>s' T. dispatch_all C (map Readable rs) ?s0 = Some s' \<and>
            effects_since ?s0 s' = T @ [Disable DATA_SOURCE_CALLBACK_READ, BlockReceived] \<and>
            BlockReceived \<notin> set T \<and>
            btstack_uart_block_read_bytes_len s' = 0 \<and> \<not> ds_read_enabled s'"
    by blast
  from part1 part2 show ?thesis by (rule conjI)
qed

theorem block_received_fires_once_when_filled_witness:
  "\<exists>s' T. dispatch_all scenario_codec
             (map Readable [Some [1, 2, 3], None, Some [4, 5, 6, 7, 8, 9, 10]])
             (btstack_uart_posix_receive_block 0 10 open_session) = Some s' \<and>
          effects_since (btstack_uart_posix_receive_block 0 10 open_session) s' =
            T @ [Disable DATA_SOURCE_CALLBACK_READ, BlockReceived] \<and>
          BlockReceived \<notin> set T \<and>
          btstack_uart_block_read_bytes_len s' = 0 \<and> \<not> ds_read_enabled s'"
proof -
  have "0 \<le> ds_fd open_session" "\<not> btstack_uart_slip_receive_active open_session"
    "block_received open_session"
    by (simp_all add: open_session_def startup_def)
  moreover have "0 < (10 :: nat)" "(10 :: nat) < 65536"
    "[Some [1, 2, 3], None, Some [4, 5, 6, 7, 8, 9, 10 :: u8]] \<noteq> []"
    "0 < bytes_got (last [Some [1, 2, 3], None, Some [4, 5, 6, 7, 8, 9, 10 :: u8]])"
    "sum_list (map bytes_got [Some [1, 2, 3], None, Some [4, 5, 6, 7, 8, 9, 10 :: u8]]) = 10"
    by (simp_all add: bytes_got_def)
  ultimately show ?thesis
    using block_received_fires_once_when_filled
      [of open_session 10 "[Some [1, 2, 3], None, Some [4, 5, 6, 7, 8, 9, 10]]" scenario_codec 0]
    by blast
qed

text \<open>
  C2 as stated fails for \<open>L = 0\<close>: the dispatch finds no read pending, disarms read
  interest, reads zero bytes and returns. The callback is not called, and with read
  interest disarmed the run loop has no further dispatch to make.
\<close>

theorem block_receive_of_length_zero_never_completes:
  "map_option (\<lambda>s'. (trace s', ds_read_enabled s', btstack_uart_block_read_bytes_len s'))
     (dispatch_all scenario_codec [Readable (Some [])]
        (btstack_uart_posix_receive_block 0 0 open_session)) =
   Some ([Enable DATA_SOURCE_CALLBACK_READ, Disable DATA_SOURCE_CALLBACK_READ, SysRead 0,
          LogError ''read zero bytes''], False, 0)"
  by (simp add: open_session_def startup_def hci_uart_posix_process_def
        btstack_uart_posix_receive_block_def btstack_uart_block_posix_process_read_def
        run_loop_defs Let_def bytes_read_of_def)

section \<open>Frame completion (C3)\<close>

text \<open>
  C3, as amended. When \<^verbatim>\<open>process_buffer\<close> returns a frame size \<open>n > 0\<close>, its one effect is
  the \<^verbatim>\<open>frame_received\<close> callback with \<open>n\<close>: read interest is neither disarmed nor
  touched, and the receive-active flag is cleared. The decoder has completed the frame at
  the \<open>k\<close>-th of the buffered bytes and not before, and the bytes after it are still
  buffered. When there are such bytes, the position is below the length, and the next
  \<^verbatim>\<open>receive_frame\<close> runs \<^verbatim>\<open>process_buffer\<close> on them before anything else, arming read interest
  only when that finds no frame.
\<close>

theorem frame_completion_keeps_read_interest:
  assumes le: "btstack_uart_slip_receive_pos s \<le> btstack_uart_slip_receive_len s"
    and run: "btstack_uart_slip_posix_process_buffer C s = Some (s', n)"
    and n: "0 < n"
  shows "effects_since s s' = [FrameReceived n] \<and>
         ds_read_enabled s' = ds_read_enabled s \<and>
         \<not> btstack_uart_slip_receive_active s' \<and>
         (\<exists>k. 0 < k \<and> k \<le> length (scratch_pending s) \<and>
              decoder_completes C (slip_decoder s) (take k (scratch_pending s)) n \<and>
              scratch_pending s' = drop k (scratch_pending s)) \<and>
         (scratch_pending s' \<noteq> [] \<longrightarrow>
            btstack_uart_slip_receive_pos s' < btstack_uart_slip_receive_len s' \<and>
            (\<forall>len. btstack_uart_slip_posix_receive_frame C len s' =
               (case btstack_uart_slip_posix_process_buffer C
                       (s'\<lparr>btstack_uart_slip_receive_active := True,
                           btstack_uart_slip_receive_track_start := 1,
                           slip_decoder := btstack_slip_decoder_init C len\<rparr>) of
                  None \<Rightarrow> None
                | Some (s2, frame_found) \<Rightarrow>
                    if frame_found \<noteq> 0 then Some s2
                    else Some (btstack_run_loop_enable_data_source_callbacks
                                 DATA_SOURCE_CALLBACK_READ s2))))"
proof -
  obtain d k m where feed: "feed_until_frame C (slip_decoder s) (scratch_pending s) = (d, k, m)"
    by (cases "feed_until_frame C (slip_decoder s) (scratch_pending s)")
  have m: "m = n"
    using run feed n by (simp add: process_buffer_feed Let_def split: if_splits)
  have cb: "frame_received s"
    using run feed n by (simp add: process_buffer_feed Let_def split: if_splits)
  from n m have m0: "m \<noteq> 0" by simp
  from process_buffer_frame [OF feed m0 cb le] run m
  have s': "trace s' = trace s @ [FrameReceived n]"
      "\<not> btstack_uart_slip_receive_active s'"
      "ds_read_enabled s' = ds_read_enabled s"
      "scratch_pending s' = drop k (scratch_pending s)"
    by auto
  from feed_until_frame_length [OF feed] m0
  have k: "0 < k" "k \<le> length (scratch_pending s)" by simp_all
  from feed_until_frame_cases [OF feed] m0 m
  have dc: "decoder_completes C (slip_decoder s) (take k (scratch_pending s)) n" by simp
  have a: "\<exists>k. 0 < k \<and> k \<le> length (scratch_pending s) \<and>
              decoder_completes C (slip_decoder s) (take k (scratch_pending s)) n \<and>
              scratch_pending s' = drop k (scratch_pending s)"
    using k dc s'(4) by blast
  have b: "btstack_uart_slip_receive_pos s' < btstack_uart_slip_receive_len s'"
    if "scratch_pending s' \<noteq> []"
    using that by (simp add: scratch_pending_def)
  have c: "btstack_uart_slip_posix_receive_frame C len s' =
               (case btstack_uart_slip_posix_process_buffer C
                       (s'\<lparr>btstack_uart_slip_receive_active := True,
                           btstack_uart_slip_receive_track_start := 1,
                           slip_decoder := btstack_slip_decoder_init C len\<rparr>) of
                  None \<Rightarrow> None
                | Some (s2, frame_found) \<Rightarrow>
                    if frame_found \<noteq> 0 then Some s2
                    else Some (btstack_run_loop_enable_data_source_callbacks
                                 DATA_SOURCE_CALLBACK_READ s2))"
    if "scratch_pending s' \<noteq> []" for len
    using b [OF that] by (simp add: btstack_uart_slip_posix_receive_frame_def)
  from effects_since_append [OF s'(1)] s'(2,3) a b c show ?thesis by blast
qed

theorem frame_completion_keeps_read_interest_witness:
  "\<exists>s'. btstack_uart_slip_posix_process_buffer scenario_codec buffered_session = Some (s', 2) \<and>
     effects_since buffered_session s' = [FrameReceived 2] \<and>
     ds_read_enabled s' = ds_read_enabled buffered_session \<and>
     \<not> btstack_uart_slip_receive_active s' \<and>
     scratch_pending s' = [3, 0xC0]"
proof -
  have feed: "feed_until_frame scenario_codec (slip_decoder buffered_session)
      (scratch_pending buffered_session) =
      (decoder_feed scenario_codec (0, 0) [1, 2, 0xC0], length [1, 2, 0xC0 :: u8], 2)"
    using feed_until_frame_completes [OF scenario_decoder_first_frame, of "[3, 0xC0]"]
    by (simp add: buffered_session_pending buffered_session_fields)
  have le: "btstack_uart_slip_receive_pos buffered_session \<le>
      btstack_uart_slip_receive_len buffered_session"
    by (simp add: buffered_session_fields)
  from process_buffer_frame [OF feed _ buffered_session_fields(3) le]
  obtain s' where run:
      "btstack_uart_slip_posix_process_buffer scenario_codec buffered_session = Some (s', 2)"
    and pend: "scratch_pending s' = [3, 0xC0]"
    by (auto simp: buffered_session_pending)
  from frame_completion_keeps_read_interest [OF le run] pend run
  show ?thesis by simp
qed

text \<open>
  C3 as stated fails: the frame pipeline never disarms read interest. After
  \<^verbatim>\<open>receive_frame\<close> and a read that delivers one whole frame, the callback has been called
  and read interest is still armed; no call disarms it.
\<close>

theorem frame_completion_leaves_read_interest_armed:
  "map_option (\<lambda>s'. (trace s', ds_read_enabled s', btstack_uart_slip_receive_active s'))
     (Option.bind (btstack_uart_slip_posix_receive_frame scenario_codec 16 open_session)
        (hci_uart_posix_process scenario_codec (Readable (Some [1, 2, 0xC0])))) =
   Some ([Enable DATA_SOURCE_CALLBACK_READ, SysRead SLIP_RECEIVE_BUFFER_SIZE, FrameReceived 2],
         True, False)"
  by (simp add: open_session_def startup_def hci_uart_posix_process_def
        btstack_uart_slip_posix_receive_frame_def btstack_uart_slip_posix_process_read_def
        btstack_uart_slip_posix_process_buffer_def process_buffer_loop.simps
        scenario_codec_def run_loop_defs Let_def nth_append)

section \<open>Buffered bytes at \<^verbatim>\<open>receive_frame\<close> (C4)\<close>

text \<open>
  C4. \<^verbatim>\<open>receive_frame\<close> is called with bytes buffered (position below length). If the
  decoder, initialised by this call, completes a frame of size \<open>n\<close> on a prefix of them, the
  call returns with the \<^verbatim>\<open>frame_received\<close> callback for \<open>n\<close> as its only effect: read
  interest is not armed and its flag is as before. If the decoder completes no frame on
  them, the only effect is the arming of read interest. And read interest is armed by the
  call only then.
\<close>

theorem buffered_frame_is_delivered_within_receive_frame:
  assumes lt: "btstack_uart_slip_receive_pos s < btstack_uart_slip_receive_len s"
    and cb: "frame_received s"
  shows "(\<forall>k n. decoder_completes C (btstack_slip_decoder_init C len)
                   (take k (scratch_pending s)) n \<longrightarrow>
            (\<exists>s'. btstack_uart_slip_posix_receive_frame C len s = Some s' \<and>
                 effects_since s s' = [FrameReceived n] \<and>
                 ds_read_enabled s' = ds_read_enabled s)) \<and>
         (decoder_pending C (btstack_slip_decoder_init C len) (scratch_pending s) \<longrightarrow>
            (\<exists>s'. btstack_uart_slip_posix_receive_frame C len s = Some s' \<and>
                 effects_since s s' = [Enable DATA_SOURCE_CALLBACK_READ] \<and>
                 ds_read_enabled s')) \<and>
         (\<forall>s'. btstack_uart_slip_posix_receive_frame C len s = Some s' \<longrightarrow>
            Enable DATA_SOURCE_CALLBACK_READ \<in> set (effects_since s s') \<longrightarrow>
            decoder_pending C (btstack_slip_decoder_init C len) (scratch_pending s))"
proof -
  obtain d k m where feed:
      "feed_until_frame C (btstack_slip_decoder_init C len) (scratch_pending s) = (d, k, m)"
    by (cases "feed_until_frame C (btstack_slip_decoder_init C len) (scratch_pending s)")
  note rf = receive_frame_buffered [OF lt cb feed]
  have a: "\<exists>s'. btstack_uart_slip_posix_receive_frame C len s = Some s' \<and>
                 effects_since s s' = [FrameReceived n] \<and>
                 ds_read_enabled s' = ds_read_enabled s"
    if dc: "decoder_completes C (btstack_slip_decoder_init C len) (take j (scratch_pending s)) n"
    for j n
  proof -
    from feed_until_frame_completes [OF dc, of "drop j (scratch_pending s)"] feed
    have "m = n" "n \<noteq> 0" by simp_all
    with rf show ?thesis by (auto simp: effects_since_def)
  qed
  have b: "\<exists>s'. btstack_uart_slip_posix_receive_frame C len s = Some s' \<and>
                 effects_since s s' = [Enable DATA_SOURCE_CALLBACK_READ] \<and>
                 ds_read_enabled s'"
    if dp: "decoder_pending C (btstack_slip_decoder_init C len) (scratch_pending s)"
  proof -
    from feed_until_frame_pending [OF dp] feed have "m = 0" by simp
    with rf show ?thesis by (auto simp: effects_since_def)
  qed
  have c: "decoder_pending C (btstack_slip_decoder_init C len) (scratch_pending s)"
    if run: "btstack_uart_slip_posix_receive_frame C len s = Some s'"
      and en: "Enable DATA_SOURCE_CALLBACK_READ \<in> set (effects_since s s')" for s'
  proof (cases "m = 0")
    case True
    with feed_until_frame_cases [OF feed] show ?thesis by simp
  next
    case False
    with rf run en show ?thesis by (auto simp: effects_since_def)
  qed
  from a b c show ?thesis by blast
qed

theorem buffered_frame_is_delivered_within_receive_frame_witness:
  "\<exists>s'. btstack_uart_slip_posix_receive_frame scenario_codec 16 buffered_session = Some s' \<and>
     effects_since buffered_session s' = [FrameReceived 2] \<and>
     ds_read_enabled s' = ds_read_enabled buffered_session"
proof -
  have lt: "btstack_uart_slip_receive_pos buffered_session <
      btstack_uart_slip_receive_len buffered_session"
    by (simp add: buffered_session_fields)
  have dc: "decoder_completes scenario_codec (btstack_slip_decoder_init scenario_codec 16)
      (take 3 (scratch_pending buffered_session)) 2"
    using scenario_decoder_first_frame
    by (simp add: buffered_session_pending scenario_codec_def)
  from buffered_frame_is_delivered_within_receive_frame
    [OF lt buffered_session_fields(3), of scenario_codec 16] dc
  show ?thesis by blast
qed

section \<open>Two frames in one read (C5)\<close>

text \<open>
  C5. The scratch buffer is empty, and one read delivers \<open>bs1 @ bs2\<close>, where the decoder
  completes a frame of size \<open>n1\<close> exactly on \<open>bs1\<close> and one of size \<open>n2\<close> exactly on \<open>bs2\<close>.
  Then \<^verbatim>\<open>receive_frame\<close> arms read interest; the read dispatch makes the one \<^verbatim>\<open>read\<close> and
  calls the callback for the first frame; and the next \<^verbatim>\<open>receive_frame\<close> has the callback
  for the second frame as its only effect: no \<^verbatim>\<open>read\<close>, no arming.
\<close>

theorem two_frames_in_one_read:
  assumes fd: "0 \<le> ds_fd s" and cb: "frame_received s"
    and empty: "btstack_uart_slip_receive_len s = 0"
    and f1: "decoder_completes C (btstack_slip_decoder_init C len1) bs1 n1"
    and f2: "decoder_completes C (btstack_slip_decoder_init C len2) bs2 n2"
    and fit: "length (bs1 @ bs2) \<le> SLIP_RECEIVE_BUFFER_SIZE"
  shows "\<exists>s1 s2 s3.
           btstack_uart_slip_posix_receive_frame C len1 s = Some s1 \<and>
           effects_since s s1 = [Enable DATA_SOURCE_CALLBACK_READ] \<and>
           hci_uart_posix_process C (Readable (Some (bs1 @ bs2))) s1 = Some s2 \<and>
           effects_since s1 s2 = [SysRead SLIP_RECEIVE_BUFFER_SIZE, FrameReceived n1] \<and>
           btstack_uart_slip_posix_receive_frame C len2 s2 = Some s3 \<and>
           effects_since s2 s3 = [FrameReceived n2]"
proof -
  let ?s1 = "btstack_run_loop_enable_data_source_callbacks DATA_SOURCE_CALLBACK_READ
               (s\<lparr>btstack_uart_slip_receive_active := True,
                  btstack_uart_slip_receive_track_start := 1,
                  slip_decoder := btstack_slip_decoder_init C len1\<rparr>)"
  have s1: "btstack_uart_slip_posix_receive_frame C len1 s = Some ?s1"
    using empty by (simp add: btstack_uart_slip_posix_receive_frame_def)
  have e1: "effects_since s ?s1 = [Enable DATA_SOURCE_CALLBACK_READ]"
    by (simp add: run_loop_defs effects_since_def)
  let ?t = "?s1\<lparr>btstack_uart_slip_receive_track_start := 0,
                   btstack_uart_slip_receive_buffer :=
                     (bs1 @ bs2) @ drop (length (bs1 @ bs2)) (btstack_uart_slip_receive_buffer ?s1),
                   btstack_uart_slip_receive_pos := 0,
                   btstack_uart_slip_receive_len := length (bs1 @ bs2),
                   trace := trace ?s1 @ [SysRead SLIP_RECEIVE_BUFFER_SIZE]\<rparr>"
  have small: "length (bs1 @ bs2) < 65536"
    using fit by (simp add: SLIP_RECEIVE_BUFFER_SIZE_def)
  have disp: "hci_uart_posix_process C (Readable (Some (bs1 @ bs2))) ?s1 =
      map_option fst (btstack_uart_slip_posix_process_buffer C ?t)"
    using fd slip_process_read_bytes [OF small, of C ?s1]
    by (simp add: hci_uart_posix_process_def run_loop_defs)
  have pend_t: "scratch_pending ?t = bs1 @ bs2"
    using nth_append_prefix_map [of "bs1 @ bs2"]
    by (simp add: scratch_pending_def run_loop_defs)
  have feed_t: "feed_until_frame C (slip_decoder ?t) (scratch_pending ?t) =
      (decoder_feed C (btstack_slip_decoder_init C len1) bs1, length bs1, n1)"
    and n1: "n1 \<noteq> 0"
    using feed_until_frame_completes [OF f1, of bs2] pend_t
    by (simp_all add: run_loop_defs)
  have cb_t: "frame_received ?t" using cb by (simp add: run_loop_defs)
  have le_t: "btstack_uart_slip_receive_pos ?t \<le> btstack_uart_slip_receive_len ?t" by simp
  from process_buffer_frame [OF feed_t n1 cb_t le_t]
  obtain s2 where s2: "btstack_uart_slip_posix_process_buffer C ?t = Some (s2, n1)"
      "trace s2 = trace ?t @ [FrameReceived n1]"
      "frame_received s2"
      "scratch_pending s2 = drop (length bs1) (scratch_pending ?t)"
    by blast
  have d2: "hci_uart_posix_process C (Readable (Some (bs1 @ bs2))) ?s1 = Some s2"
    using disp s2(1) by simp
  have e2: "effects_since ?s1 s2 = [SysRead SLIP_RECEIVE_BUFFER_SIZE, FrameReceived n1]"
    using s2(2) by (simp add: effects_since_def)
  have pend2: "scratch_pending s2 = bs2"
    using s2(4) pend_t by simp
  have "bs2 \<noteq> []" using f2 by auto
  with pend2 have lt2: "btstack_uart_slip_receive_pos s2 < btstack_uart_slip_receive_len s2"
    by (cases "btstack_uart_slip_receive_pos s2 < btstack_uart_slip_receive_len s2")
       (simp_all add: scratch_pending_def)
  have feed2: "feed_until_frame C (btstack_slip_decoder_init C len2) (scratch_pending s2) =
      (decoder_feed C (btstack_slip_decoder_init C len2) bs2, length bs2, n2)"
    and n2: "n2 \<noteq> 0"
    using feed_until_frame_completes [OF f2, of "[]"] pend2 by simp_all
  from receive_frame_buffered [OF lt2 s2(3) feed2] n2
  obtain s3 where s3: "btstack_uart_slip_posix_receive_frame C len2 s2 = Some s3"
      "trace s3 = trace s2 @ [FrameReceived n2]"
    by blast
  have e3: "effects_since s2 s3 = [FrameReceived n2]"
    using s3(2) by (simp add: effects_since_def)
  from s1 e1 d2 e2 s3(1) e3 show ?thesis by blast
qed

theorem two_frames_in_one_read_witness:
  "\<exists>s1 s2 s3.
     btstack_uart_slip_posix_receive_frame scenario_codec 16 open_session = Some s1 \<and>
     effects_since open_session s1 = [Enable DATA_SOURCE_CALLBACK_READ] \<and>
     hci_uart_posix_process scenario_codec (Readable (Some ([1, 2, 0xC0] @ [3, 0xC0]))) s1 =
       Some s2 \<and>
     effects_since s1 s2 = [SysRead SLIP_RECEIVE_BUFFER_SIZE, FrameReceived 2] \<and>
     btstack_uart_slip_posix_receive_frame scenario_codec 16 s2 = Some s3 \<and>
     effects_since s2 s3 = [FrameReceived 1]"
proof -
  have "0 \<le> ds_fd open_session" "frame_received open_session"
    "btstack_uart_slip_receive_len open_session = 0"
    by (simp_all add: open_session_def startup_def)
  moreover have
    "decoder_completes scenario_codec (btstack_slip_decoder_init scenario_codec 16)
       [1, 2, 0xC0] 2"
    "decoder_completes scenario_codec (btstack_slip_decoder_init scenario_codec 16)
       [3, 0xC0] 1"
    using scenario_decoder_first_frame scenario_decoder_second_frame
    by (simp_all add: scenario_codec_def)
  moreover have "length ([1, 2, 0xC0] @ [3, 0xC0 :: u8]) \<le> SLIP_RECEIVE_BUFFER_SIZE"
    by (simp add: SLIP_RECEIVE_BUFFER_SIZE_def)
  ultimately show ?thesis
    by (rule two_frames_in_one_read)
qed

section \<open>Zero-length results (C6)\<close>

lemma block_write_zero:
  assumes "0 \<le> ds_fd s" "\<not> btstack_uart_slip_write_active s"
    "btstack_uart_block_write_bytes_len s \<noteq> 0"
  shows "hci_uart_posix_process C (Writable 0) s =
           Some (s\<lparr>trace := trace s @ [SysWrite (btstack_uart_block_write_bytes_len s),
                                        LogError ''wrote zero bytes'']\<rparr>)"
  using assms
  by (simp add: hci_uart_posix_process_def btstack_uart_block_posix_process_write_def
        emit_def Let_def)

lemma block_read_zero:
  assumes "0 \<le> ds_fd s" "\<not> btstack_uart_slip_receive_active s"
    "btstack_uart_block_read_bytes_len s \<noteq> 0"
  shows "hci_uart_posix_process C (Readable (Some [])) s =
           Some (s\<lparr>trace := trace s @ [SysRead (btstack_uart_block_read_bytes_len s),
                                        LogError ''read zero bytes'']\<rparr>)"
  using assms
  by (simp add: hci_uart_posix_process_def btstack_uart_block_posix_process_read_def
        emit_def Let_def bytes_read_of_def)

text \<open>
  The frame engine has no test for a result of zero. A write of zero bytes is a partial
  write that writes nothing: the chunk is as before and write interest is armed again. A
  read of zero bytes is an empty buffer: nothing is fed to the decoder.
\<close>

lemma slip_write_zero:
  assumes "0 \<le> ds_fd s" "btstack_uart_slip_write_active s"
    "btstack_uart_slip_write_bytes_len s \<noteq> 0"
  shows "hci_uart_posix_process C (Writable 0) s =
           Some (s\<lparr>ds_write_enabled := True,
                   trace := trace s @ [SysWrite (btstack_uart_slip_write_bytes_len s),
                                       Enable DATA_SOURCE_CALLBACK_WRITE]\<rparr>)"
  using assms
  by (simp add: hci_uart_posix_process_def btstack_uart_slip_posix_process_write_def
        run_loop_defs Let_def)

lemma slip_read_zero:
  assumes "0 \<le> ds_fd s" "btstack_uart_slip_receive_active s"
  shows "hci_uart_posix_process C (Readable (Some [])) s =
           Some (s\<lparr>btstack_uart_slip_receive_track_start := 0,
                   btstack_uart_slip_receive_pos := 0,
                   btstack_uart_slip_receive_len := 0,
                   trace := trace s @ [SysRead SLIP_RECEIVE_BUFFER_SIZE]\<rparr>)"
  using assms
  by (simp add: hci_uart_posix_process_def btstack_uart_slip_posix_process_read_def
        btstack_uart_slip_posix_process_buffer_def process_buffer_loop_done
        emit_def Let_def)

text \<open>
  C6, as amended. On an open descriptor in block mode, with a write or a read in flight,
  a dispatch whose system call returns zero logs an error and returns: the remaining
  length and the cursor are as before, no interest is armed or disarmed, and no callback
  is called in this dispatch. Nothing but the trace changes.
\<close>

theorem zero_length_result_in_block_mode:
  assumes "0 \<le> ds_fd s"
  shows "(\<not> btstack_uart_slip_write_active s \<and> btstack_uart_block_write_bytes_len s \<noteq> 0 \<longrightarrow>
            hci_uart_posix_process C (Writable 0) s =
              Some (s\<lparr>trace := trace s @ [SysWrite (btstack_uart_block_write_bytes_len s),
                                           LogError ''wrote zero bytes'']\<rparr>)) \<and>
         (\<not> btstack_uart_slip_receive_active s \<and> btstack_uart_block_read_bytes_len s \<noteq> 0 \<longrightarrow>
            hci_uart_posix_process C (Readable (Some [])) s =
              Some (s\<lparr>trace := trace s @ [SysRead (btstack_uart_block_read_bytes_len s),
                                           LogError ''read zero bytes'']\<rparr>))"
  using block_write_zero [OF assms, of C] block_read_zero [OF assms, of C]
  by blast

theorem zero_length_result_in_block_mode_witness:
  "map_option trace
     (hci_uart_posix_process scenario_codec (Writable 0)
        (btstack_uart_posix_send_block 0 2 open_session)) =
   Some [Enable DATA_SOURCE_CALLBACK_WRITE, SysWrite 2, LogError ''wrote zero bytes''] \<and>
   map_option trace
     (hci_uart_posix_process scenario_codec (Readable (Some []))
        (btstack_uart_posix_receive_block 0 2 open_session)) =
   Some [Enable DATA_SOURCE_CALLBACK_READ, SysRead 2, LogError ''read zero bytes'']"
proof -
  let ?w = "btstack_uart_posix_send_block 0 2 open_session"
  let ?r = "btstack_uart_posix_receive_block 0 2 open_session"
  have w: "0 \<le> ds_fd ?w" "\<not> btstack_uart_slip_write_active ?w"
    "btstack_uart_block_write_bytes_len ?w = 2"
    "trace ?w = [Enable DATA_SOURCE_CALLBACK_WRITE]"
    by (simp_all add: btstack_uart_posix_send_block_def run_loop_defs open_session_def
          startup_def)
  have r: "0 \<le> ds_fd ?r" "\<not> btstack_uart_slip_receive_active ?r"
    "btstack_uart_block_read_bytes_len ?r = 2"
    "trace ?r = [Enable DATA_SOURCE_CALLBACK_READ]"
    by (simp_all add: btstack_uart_posix_receive_block_def run_loop_defs open_session_def
          startup_def)
  from zero_length_result_in_block_mode [OF w(1), of scenario_codec] w(2,3,4)
  have "map_option trace (hci_uart_posix_process scenario_codec (Writable 0) ?w) =
    Some [Enable DATA_SOURCE_CALLBACK_WRITE, SysWrite 2, LogError ''wrote zero bytes'']"
    by simp
  moreover
  from zero_length_result_in_block_mode [OF r(1), of scenario_codec] r(2,3,4)
  have "map_option trace (hci_uart_posix_process scenario_codec (Readable (Some [])) ?r) =
    Some [Enable DATA_SOURCE_CALLBACK_READ, SysRead 2, LogError ''read zero bytes'']"
    by simp
  ultimately show ?thesis by (rule conjI)
qed

text \<open>
  C6 as stated fails twice. In frame mode a write that returns zero is not logged and write
  interest is armed again. In block mode the dispatch that logs the zero-length write
  leaves write interest armed, so the send is not abandoned: the next write dispatch
  completes it and the callback fires.
\<close>

theorem zero_length_frame_write_not_logged_and_block_send_resumes:
  "map_option trace
     (hci_uart_posix_process scenario_codec (Writable 0)
        (btstack_uart_slip_posix_send_frame scenario_codec [1, 2, 3] open_session)) =
   Some [LogSlipSend 3, Enable DATA_SOURCE_CALLBACK_WRITE,
         SysWrite 3, Enable DATA_SOURCE_CALLBACK_WRITE] \<and>
   map_option trace
     (dispatch_all scenario_codec [Writable 0, Writable 2]
        (btstack_uart_posix_send_block 0 2 open_session)) =
   Some [Enable DATA_SOURCE_CALLBACK_WRITE, SysWrite 2, LogError ''wrote zero bytes'',
         SysWrite 2, Disable DATA_SOURCE_CALLBACK_WRITE, BlockSent]"
  by (simp add: open_session_def startup_def hci_uart_posix_process_def
        btstack_uart_slip_posix_send_frame_def btstack_uart_slip_posix_encode_chunk_and_send_def
        btstack_uart_slip_posix_process_write_def btstack_uart_posix_send_block_def
        btstack_uart_block_posix_process_write_def
        encode_chunk_loop.simps scenario_codec_def SLIP_TX_CHUNK_LEN_def
        run_loop_defs Let_def)

section \<open>Sending a frame in chunks (C7)\<close>

lemma chunk_lengths_0 [simp]: "chunk_lengths 0 = []"
  by (simp add: chunk_lengths.simps)

lemma chunk_lengths_pos:
  "0 < n \<Longrightarrow> chunk_lengths n = min SLIP_TX_CHUNK_LEN n # chunk_lengths (n - SLIP_TX_CHUNK_LEN)"
  by (subst chunk_lengths.simps) (simp add: min_def)

lemma chunk_lengths_bound: "\<forall>c\<in>set (chunk_lengths n). 0 < c \<and> c \<le> SLIP_TX_CHUNK_LEN"
proof (induction n rule: chunk_lengths.induct)
  case (1 n)
  show ?case
  proof (cases "n = 0")
    case True
    then show ?thesis by simp
  next
    case False
    have eq: "chunk_lengths n =
        min SLIP_TX_CHUNK_LEN n # chunk_lengths (n - min SLIP_TX_CHUNK_LEN n)"
      using False by (subst chunk_lengths.simps) simp
    have b: "0 < min SLIP_TX_CHUNK_LEN n" "min SLIP_TX_CHUNK_LEN n \<le> SLIP_TX_CHUNK_LEN"
      using False by (simp_all add: SLIP_TX_CHUNK_LEN_def)
    note IH = "1.IH" [OF False]
    show ?thesis
      apply (subst eq)
      apply (simp only: set_simps ball_simps)
      using b IH by blast
  qed
qed

lemma div_chunk_small:
  fixes n :: nat
  shows "0 < n \<Longrightarrow> n \<le> 128 \<Longrightarrow> (n + 127) div 128 = 1"
  by (rule div_nat_eqI) simp_all

lemma div_chunk_big:
  fixes n :: nat
  assumes "128 < n"
  shows "(n + 127) div 128 = Suc ((n - 128 + 127) div 128)"
proof -
  from assms have "n + 127 = (n - 128 + 127) + 128" by simp
  then have "(n + 127) div 128 = ((n - 128 + 127) + 128) div 128" by simp
  also have "\<dots> = Suc ((n - 128 + 127) div 128)" by simp
  finally show ?thesis .
qed

lemma chunk_lengths_count:
  "length (chunk_lengths n) = (n + SLIP_TX_CHUNK_LEN - 1) div SLIP_TX_CHUNK_LEN"
proof (induction n rule: less_induct)
  case (less n)
  have goal: "(n + SLIP_TX_CHUNK_LEN - 1) div SLIP_TX_CHUNK_LEN = (n + 127) div 128"
    by (simp add: SLIP_TX_CHUNK_LEN_def)
  show ?case
  proof (cases "n = 0")
    case True
    then show ?thesis by (simp add: SLIP_TX_CHUNK_LEN_def)
  next
    case False
    show ?thesis
    proof (cases "n \<le> 128")
      case True
      with False have "chunk_lengths n = [n]"
        by (subst chunk_lengths.simps) (simp add: SLIP_TX_CHUNK_LEN_def)
      from arg_cong [OF this, of length]
      have "length (chunk_lengths n) = 1" by simp
      also have "1 = (n + 127) div 128"
        using div_chunk_small [of n] True False by simp
      finally show ?thesis unfolding goal .
    next
      case big: False
      then have lt: "n - 128 < n" and gt: "128 < n" by simp_all
      have "chunk_lengths n = 128 # chunk_lengths (n - 128)"
        using big by (subst chunk_lengths.simps) (simp add: SLIP_TX_CHUNK_LEN_def)
      from arg_cong [OF this, of length]
      have "length (chunk_lengths n) = Suc (length (chunk_lengths (n - 128)))" by simp
      also have "length (chunk_lengths (n - 128)) = (n - 128 + 127) div 128"
        using less.IH [OF lt] by (simp add: SLIP_TX_CHUNK_LEN_def)
      also have "Suc ((n - 128 + 127) div 128) = (n + 127) div 128"
        using div_chunk_big [OF gt] by simp
      finally show ?thesis unfolding goal .
    qed
  qed
qed

lemma chunks_submitted_append:
  "chunks_submitted (xs @ ys) = chunks_submitted xs @ chunks_submitted ys"
  by (induction xs rule: chunks_submitted.induct) simp_all

lemma encode_chunk_loop_yields:
  assumes "encoder_yields C (slip_encoder s) out" "pos \<le> SLIP_TX_CHUNK_LEN"
  shows "\<exists>buf e. encode_chunk_loop C s pos =
           (s\<lparr>btstack_uart_slip_outgoing_buffer := buf, slip_encoder := e\<rparr>,
            pos + min (SLIP_TX_CHUNK_LEN - pos) (length out)) \<and>
           encoder_yields C e (drop (SLIP_TX_CHUNK_LEN - pos) out)"
  using assms
proof (induction out arbitrary: s pos)
  case Nil
  then have "encode_chunk_loop C s pos = (s, pos)"
    by (subst encode_chunk_loop.simps) simp
  with Nil show ?case
    by (intro exI [of _ "btstack_uart_slip_outgoing_buffer s"] exI [of _ "slip_encoder s"])
       simp
next
  case (Cons b bs)
  obtain e1 where g: "btstack_slip_encoder_get_byte C (slip_encoder s) = (b, e1)"
    and y1: "encoder_yields C e1 bs" and has: "btstack_slip_encoder_has_data C (slip_encoder s)"
    using Cons.prems(1) by (cases "btstack_slip_encoder_get_byte C (slip_encoder s)") auto
  show ?case
  proof (cases "pos < SLIP_TX_CHUNK_LEN")
    case True
    let ?s1 = "s\<lparr>btstack_uart_slip_outgoing_buffer :=
               (btstack_uart_slip_outgoing_buffer s)[pos := b],
             slip_encoder := e1\<rparr>"
    have "encoder_yields C (slip_encoder ?s1) bs" using y1 by simp
    moreover have "pos + 1 \<le> SLIP_TX_CHUNK_LEN" using True by simp
    ultimately obtain buf e where IH:
        "encode_chunk_loop C ?s1 (pos + 1) =
           (?s1\<lparr>btstack_uart_slip_outgoing_buffer := buf, slip_encoder := e\<rparr>,
            pos + 1 + min (SLIP_TX_CHUNK_LEN - (pos + 1)) (length bs))"
        "encoder_yields C e (drop (SLIP_TX_CHUNK_LEN - (pos + 1)) bs)"
      using Cons.IH [of ?s1 "pos + 1"] by blast
    have unfold: "encode_chunk_loop C s pos = encode_chunk_loop C ?s1 (pos + 1)"
      using True has g by (subst encode_chunk_loop.simps) simp
    have n: "pos + 1 + min (SLIP_TX_CHUNK_LEN - (pos + 1)) (length bs) =
        pos + min (SLIP_TX_CHUNK_LEN - pos) (length (b # bs))"
      using True by (auto simp: min_def)
    have d: "drop (SLIP_TX_CHUNK_LEN - (pos + 1)) bs = drop (SLIP_TX_CHUNK_LEN - pos) (b # bs)"
      using True by (simp add: drop_Cons' )
    have r: "?s1\<lparr>btstack_uart_slip_outgoing_buffer := buf, slip_encoder := e\<rparr> =
        s\<lparr>btstack_uart_slip_outgoing_buffer := buf, slip_encoder := e\<rparr>"
      by simp
    show ?thesis
      unfolding unfold IH(1) n r using IH(2) d
      by (intro exI [of _ buf] exI [of _ e]) simp
  next
    case False
    with Cons.prems(2) have eq: "pos = SLIP_TX_CHUNK_LEN" by simp
    have "encode_chunk_loop C s pos = (s, pos)"
      using False by (subst encode_chunk_loop.simps) simp
    with Cons.prems(1) eq show ?thesis
      by (intro exI [of _ "btstack_uart_slip_outgoing_buffer s"] exI [of _ "slip_encoder s"])
         simp
  qed
qed

lemma encode_chunk_and_send_yields:
  assumes "encoder_yields C (slip_encoder s) out"
  shows "\<exists>s'. btstack_uart_slip_posix_encode_chunk_and_send C s = s' \<and>
           encoder_yields C (slip_encoder s') (drop SLIP_TX_CHUNK_LEN out) \<and>
           btstack_uart_slip_write_bytes_len s' = int (min SLIP_TX_CHUNK_LEN (length out)) \<and>
           trace s' = trace s @ [LogSlipSend (min SLIP_TX_CHUNK_LEN (length out)),
                                 Enable DATA_SOURCE_CALLBACK_WRITE] \<and>
           ds_write_enabled s' \<and> ds_fd s' = ds_fd s \<and> frame_sent s' = frame_sent s \<and>
           btstack_uart_slip_write_active s' = btstack_uart_slip_write_active s"
proof -
  from encode_chunk_loop_yields [OF assms, of 0]
  obtain buf e where loop: "encode_chunk_loop C s 0 =
           (s\<lparr>btstack_uart_slip_outgoing_buffer := buf, slip_encoder := e\<rparr>,
            min SLIP_TX_CHUNK_LEN (length out))"
      and y: "encoder_yields C e (drop SLIP_TX_CHUNK_LEN out)"
    by auto
  show ?thesis
    using y by (simp add: btstack_uart_slip_posix_encode_chunk_and_send_def loop run_loop_defs)
qed

lemma send_frame_starts:
  assumes fd: "0 \<le> ds_fd s" and cb: "frame_sent s"
    and enc: "encoder_yields C (btstack_slip_encoder_start C frame) out" and ne: "out \<noteq> []"
  shows "frame_send_pending C (btstack_uart_slip_posix_send_frame C frame s)
           (drop SLIP_TX_CHUNK_LEN out) \<and>
         btstack_uart_slip_write_bytes_len (btstack_uart_slip_posix_send_frame C frame s) =
           int (min SLIP_TX_CHUNK_LEN (length out)) \<and>
         trace (btstack_uart_slip_posix_send_frame C frame s) =
           trace s @ [LogSlipSend (min SLIP_TX_CHUNK_LEN (length out)),
                      Enable DATA_SOURCE_CALLBACK_WRITE]"
proof -
  let ?t = "s\<lparr>btstack_uart_slip_write_active := True,
          slip_encoder := btstack_slip_encoder_start C frame\<rparr>"
  have "encoder_yields C (slip_encoder ?t) out" using enc by simp
  from encode_chunk_and_send_yields [OF this] fd cb ne
  show ?thesis
    by (simp add: btstack_uart_slip_posix_send_frame_def frame_send_pending_def
          SLIP_TX_CHUNK_LEN_def)
qed

lemma frame_write_step_partial:
  assumes "frame_send_pending C s rest" "0 < w" "w < btstack_uart_slip_write_bytes_len s"
  shows "\<exists>s'. hci_uart_posix_process C (Writable w) s = Some s' \<and>
           frame_send_pending C s' rest \<and>
           btstack_uart_slip_write_bytes_len s' = btstack_uart_slip_write_bytes_len s - w \<and>
           trace s' = trace s @ [SysWrite (btstack_uart_slip_write_bytes_len s),
                                 Enable DATA_SOURCE_CALLBACK_WRITE]"
  using assms
  by (simp add: hci_uart_posix_process_def btstack_uart_slip_posix_process_write_def
        run_loop_defs Let_def frame_send_pending_def)

lemma frame_write_step_next_chunk:
  assumes p: "frame_send_pending C s rest" and w: "w = btstack_uart_slip_write_bytes_len s"
    and ne: "rest \<noteq> []"
  shows "\<exists>s'. hci_uart_posix_process C (Writable w) s = Some s' \<and>
           frame_send_pending C s' (drop SLIP_TX_CHUNK_LEN rest) \<and>
           btstack_uart_slip_write_bytes_len s' = int (min SLIP_TX_CHUNK_LEN (length rest)) \<and>
           trace s' = trace s @ [SysWrite (btstack_uart_slip_write_bytes_len s),
                                 Disable DATA_SOURCE_CALLBACK_WRITE,
                                 LogSlipSend (min SLIP_TX_CHUNK_LEN (length rest)),
                                 Enable DATA_SOURCE_CALLBACK_WRITE]"
proof -
  let ?t = "btstack_run_loop_disable_data_source_callbacks DATA_SOURCE_CALLBACK_WRITE
              ((emit (SysWrite (btstack_uart_slip_write_bytes_len s)) s)
                 \<lparr>btstack_uart_slip_write_bytes_data := btstack_uart_slip_write_bytes_data s + w,
                  btstack_uart_slip_write_bytes_len := 0\<rparr>)"
  from p ne have has: "btstack_slip_encoder_has_data C (slip_encoder s)"
    by (cases rest) (simp_all add: frame_send_pending_def)
  have run: "hci_uart_posix_process C (Writable w) s =
      Some (btstack_uart_slip_posix_encode_chunk_and_send C ?t)"
    using p w has
    by (simp add: hci_uart_posix_process_def btstack_uart_slip_posix_process_write_def
          btstack_uart_slip_posix_block_sent_def run_loop_defs Let_def frame_send_pending_def)
  have "encoder_yields C (slip_encoder ?t) rest"
    using p by (simp add: run_loop_defs frame_send_pending_def)
  from encode_chunk_and_send_yields [OF this] p ne
  show ?thesis
    unfolding run
    by (simp add: run_loop_defs frame_send_pending_def SLIP_TX_CHUNK_LEN_def)
qed

lemma frame_write_step_final:
  assumes p: "frame_send_pending C s []" and w: "w = btstack_uart_slip_write_bytes_len s"
  shows "\<exists>s'. hci_uart_posix_process C (Writable w) s = Some s' \<and>
           \<not> btstack_uart_slip_write_active s' \<and>
           \<not> btstack_slip_encoder_has_data C (slip_encoder s') \<and>
           \<not> ds_write_enabled s' \<and>
           trace s' = trace s @ [SysWrite (btstack_uart_slip_write_bytes_len s),
                                 Disable DATA_SOURCE_CALLBACK_WRITE, FrameSent]"
  using assms
  by (simp add: hci_uart_posix_process_def btstack_uart_slip_posix_process_write_def
        btstack_uart_slip_posix_block_sent_def run_loop_defs Let_def frame_send_pending_def)

lemma write_results_fit_take:
  "write_results_fit C ws s \<Longrightarrow> write_results_fit C (take j ws) s"
proof (induction ws arbitrary: s j)
  case Nil
  then show ?case by simp
next
  case (Cons w ws)
  then show ?case by (cases j) (auto split: option.splits)
qed

lemma write_results_fit_pos:
  "write_results_fit C ws s \<Longrightarrow> \<forall>w\<in>set ws. 0 < w"
  by (induction ws arbitrary: s) (auto split: option.splits)

lemma frame_write_incomplete:
  assumes "frame_send_pending C s rest" "write_results_fit C ws s"
    and "sum_list ws < btstack_uart_slip_write_bytes_len s + int (length rest)"
  shows "\<exists>s' T rest'. dispatch_all C (map Writable ws) s = Some s' \<and>
           frame_send_pending C s' rest' \<and>
           trace s' = trace s @ T \<and> FrameSent \<notin> set T"
  using assms
proof (induction ws arbitrary: s rest)
  case Nil
  then show ?case by auto
next
  case (Cons w ws)
  from Cons.prems(2) have w: "0 < w" "w \<le> btstack_uart_slip_write_bytes_len s" by simp_all
  have "\<exists>s1 T1 rest1. hci_uart_posix_process C (Writable w) s = Some s1 \<and>
      frame_send_pending C s1 rest1 \<and> trace s1 = trace s @ T1 \<and> FrameSent \<notin> set T1 \<and>
      btstack_uart_slip_write_bytes_len s1 + int (length rest1) =
        btstack_uart_slip_write_bytes_len s + int (length rest) - w"
  proof (cases "w < btstack_uart_slip_write_bytes_len s")
    case True
    from frame_write_step_partial [OF Cons.prems(1) w(1) True]
    show ?thesis by fastforce
  next
    case False
    with w have eq: "w = btstack_uart_slip_write_bytes_len s" by simp
    have "rest \<noteq> []"
    proof
      assume "rest = []"
      with Cons.prems(3) eq have "sum_list ws < 0" by simp
      moreover have "0 \<le> sum_list ws"
        using write_results_fit_pos [of C ws] Cons.prems(2)
        by (auto intro!: sum_list_nonneg simp: less_imp_le split: option.splits)
      ultimately show False by simp
    qed
    from frame_write_step_next_chunk [OF Cons.prems(1) eq this] eq
    show ?thesis by (fastforce simp: SLIP_TX_CHUNK_LEN_def)
  qed
  then obtain s1 T1 rest1 where s1: "hci_uart_posix_process C (Writable w) s = Some s1"
      "frame_send_pending C s1 rest1" "trace s1 = trace s @ T1" "FrameSent \<notin> set T1"
      "btstack_uart_slip_write_bytes_len s1 + int (length rest1) =
        btstack_uart_slip_write_bytes_len s + int (length rest) - w"
    by blast
  have fit1: "write_results_fit C ws s1" using Cons.prems(2) s1(1) by simp
  have "sum_list ws < btstack_uart_slip_write_bytes_len s1 + int (length rest1)"
    using Cons.prems(3) s1(5) by simp
  from Cons.IH [OF s1(2) fit1 this]
  obtain s' T rest' where s': "dispatch_all C (map Writable ws) s1 = Some s'"
      "frame_send_pending C s' rest'" "trace s' = trace s1 @ T" "FrameSent \<notin> set T"
    by blast
  have "dispatch_all C (map Writable (w # ws)) s = Some s'" using s1(1) s'(1) by simp
  moreover have "trace s' = trace s @ (T1 @ T)" using s1(3) s'(3) by simp
  moreover have "FrameSent \<notin> set (T1 @ T)" using s1(4) s'(4) by simp
  ultimately show ?case using s'(2) by blast
qed

lemma frame_write_complete:
  assumes "frame_send_pending C s rest" "write_results_fit C ws s"
    and "sum_list ws = btstack_uart_slip_write_bytes_len s + int (length rest)"
  shows "\<exists>s' T. dispatch_all C (map Writable ws) s = Some s' \<and>
           trace s' = trace s @ T @ [Disable DATA_SOURCE_CALLBACK_WRITE, FrameSent] \<and>
           FrameSent \<notin> set T \<and>
           chunks_submitted T = chunk_lengths (length rest) \<and>
           \<not> btstack_uart_slip_write_active s' \<and>
           \<not> btstack_slip_encoder_has_data C (slip_encoder s') \<and>
           \<not> ds_write_enabled s'"
  using assms
proof (induction ws arbitrary: s rest)
  case Nil
  then show ?case by (simp add: frame_send_pending_def)
next
  case (Cons w ws)
  from Cons.prems(2) have w: "0 < w" "w \<le> btstack_uart_slip_write_bytes_len s" by simp_all
  let ?len = "btstack_uart_slip_write_bytes_len s"
  consider (partial) "w < ?len" | (next_chunk) "w = ?len" "rest \<noteq> []"
    | (final) "w = ?len" "rest = []"
    using w by fastforce
  then show ?case
  proof cases
    case partial
    from frame_write_step_partial [OF Cons.prems(1) w(1) partial]
    obtain s1 where s1: "hci_uart_posix_process C (Writable w) s = Some s1"
        "frame_send_pending C s1 rest"
        "btstack_uart_slip_write_bytes_len s1 = ?len - w"
        "trace s1 = trace s @ [SysWrite ?len, Enable DATA_SOURCE_CALLBACK_WRITE]"
      by blast
    have fit1: "write_results_fit C ws s1" using Cons.prems(2) s1(1) by simp
    have "sum_list ws = btstack_uart_slip_write_bytes_len s1 + int (length rest)"
      using Cons.prems(3) s1(3) by simp
    from Cons.IH [OF s1(2) fit1 this]
    obtain s' T where s': "dispatch_all C (map Writable ws) s1 = Some s'"
        "trace s' = trace s1 @ T @ [Disable DATA_SOURCE_CALLBACK_WRITE, FrameSent]"
        "FrameSent \<notin> set T" "chunks_submitted T = chunk_lengths (length rest)"
        "\<not> btstack_uart_slip_write_active s'"
        "\<not> btstack_slip_encoder_has_data C (slip_encoder s')" "\<not> ds_write_enabled s'"
      by blast
    let ?T = "[SysWrite ?len, Enable DATA_SOURCE_CALLBACK_WRITE] @ T"
    have "dispatch_all C (map Writable (w # ws)) s = Some s'" using s1(1) s'(1) by simp
    moreover have "trace s' = trace s @ ?T @ [Disable DATA_SOURCE_CALLBACK_WRITE, FrameSent]"
      using s1(4) s'(2) by simp
    moreover have "FrameSent \<notin> set ?T" using s'(3) by simp
    moreover have "chunks_submitted ?T = chunk_lengths (length rest)" using s'(4) by simp
    ultimately show ?thesis using s'(5,6,7) by blast
  next
    case next_chunk
    let ?c = "min SLIP_TX_CHUNK_LEN (length rest)"
    from frame_write_step_next_chunk [OF Cons.prems(1) next_chunk]
    obtain s1 where s1: "hci_uart_posix_process C (Writable w) s = Some s1"
        "frame_send_pending C s1 (drop SLIP_TX_CHUNK_LEN rest)"
        "btstack_uart_slip_write_bytes_len s1 = int ?c"
        "trace s1 = trace s @ [SysWrite ?len, Disable DATA_SOURCE_CALLBACK_WRITE,
                               LogSlipSend ?c, Enable DATA_SOURCE_CALLBACK_WRITE]"
      by blast
    have fit1: "write_results_fit C ws s1" using Cons.prems(2) s1(1) by simp
    have "sum_list ws =
        btstack_uart_slip_write_bytes_len s1 + int (length (drop SLIP_TX_CHUNK_LEN rest))"
      using Cons.prems(3) s1(3) next_chunk(1) by (simp add: min_def)
    from Cons.IH [OF s1(2) fit1 this]
    obtain s' T where s': "dispatch_all C (map Writable ws) s1 = Some s'"
        "trace s' = trace s1 @ T @ [Disable DATA_SOURCE_CALLBACK_WRITE, FrameSent]"
        "FrameSent \<notin> set T"
        "chunks_submitted T = chunk_lengths (length (drop SLIP_TX_CHUNK_LEN rest))"
        "\<not> btstack_uart_slip_write_active s'"
        "\<not> btstack_slip_encoder_has_data C (slip_encoder s')" "\<not> ds_write_enabled s'"
      by blast
    let ?T = "[SysWrite ?len, Disable DATA_SOURCE_CALLBACK_WRITE,
               LogSlipSend ?c, Enable DATA_SOURCE_CALLBACK_WRITE] @ T"
    have pos: "0 < length rest" using next_chunk(2) by simp
    have "dispatch_all C (map Writable (w # ws)) s = Some s'" using s1(1) s'(1) by simp
    moreover have "trace s' = trace s @ ?T @ [Disable DATA_SOURCE_CALLBACK_WRITE, FrameSent]"
      using s1(4) s'(2) by simp
    moreover have "FrameSent \<notin> set ?T" using s'(3) by simp
    moreover have "chunks_submitted ?T = chunk_lengths (length rest)"
      using s'(4) chunk_lengths_pos [OF pos] by simp
    ultimately show ?thesis using s'(5,6,7) by blast
  next
    case final
    from frame_write_step_final [OF _ final(1)] Cons.prems(1) final(2)
    obtain s' where s': "hci_uart_posix_process C (Writable w) s = Some s'"
        "\<not> btstack_uart_slip_write_active s'"
        "\<not> btstack_slip_encoder_has_data C (slip_encoder s')" "\<not> ds_write_enabled s'"
        "trace s' = trace s @ [SysWrite ?len, Disable DATA_SOURCE_CALLBACK_WRITE, FrameSent]"
      by blast
    have fit1: "write_results_fit C ws s'" using Cons.prems(2) s'(1) by simp
    have "sum_list ws = 0" using Cons.prems(3) final by simp
    moreover have "0 < sum_list ws" if "ws \<noteq> []"
      using write_results_fit_pos [OF fit1] that by (rule sum_list_pos_int)
    ultimately have "ws = []" by fastforce
    have "dispatch_all C (map Writable (w # ws)) s = Some s'"
      using s'(1) \<open>ws = []\<close> by simp
    moreover have "trace s' = trace s @ [SysWrite ?len] @
        [Disable DATA_SOURCE_CALLBACK_WRITE, FrameSent]"
      using s'(5) by simp
    moreover have "FrameSent \<notin> set [SysWrite ?len]" by simp
    moreover have "chunks_submitted [SysWrite ?len] = chunk_lengths (length rest)"
      using final(2) by simp
    ultimately show ?thesis using s'(2,3,4) by blast
  qed
qed

lemma scenario_encoder_yields:
  "encoder_yields scenario_codec (btstack_slip_encoder_start scenario_codec frame) frame"
proof -
  have "encoder_yields scenario_codec xs xs" for xs
    by (induction xs) (simp_all add: scenario_codec_def)
  then show ?thesis by (simp add: scenario_codec_def)
qed

text \<open>
  C7. The encoder hands out the bytes \<open>out\<close>, at least one, for the frame, and the write
  dispatches that follow \<^verbatim>\<open>send_frame\<close> write them all, each \<^verbatim>\<open>write\<close> returning between one
  byte and the length asked for. Then the chunks submitted are those of \<open>out\<close>: as many as
  \<open>out\<close> occupies, \<open>length out\<close> divided by the capacity and rounded up, each of at least
  one byte and at most the capacity. The effects end with the disarming of write interest
  followed by the one \<^verbatim>\<open>frame_sent\<close> callback; the send is then inactive and the encoder has
  no data. Before the last dispatch the callback has not been called, the send is active
  and write interest is armed.
\<close>

theorem frame_sent_fires_once_after_last_chunk:
  assumes fd: "0 \<le> ds_fd s" and cb: "frame_sent s"
    and enc: "encoder_yields C (btstack_slip_encoder_start C frame) out" and ne: "out \<noteq> []"
    and fit: "write_results_fit C ws (btstack_uart_slip_posix_send_frame C frame s)"
    and total: "sum_list ws = int (length out)"
  shows "(\<exists>s' T. dispatch_all C (map Writable ws) (btstack_uart_slip_posix_send_frame C frame s) =
              Some s' \<and>
            effects_since s s' = T @ [Disable DATA_SOURCE_CALLBACK_WRITE, FrameSent] \<and>
            FrameSent \<notin> set T \<and>
            chunks_submitted T = chunk_lengths (length out) \<and>
            \<not> btstack_uart_slip_write_active s' \<and>
            \<not> btstack_slip_encoder_has_data C (slip_encoder s')) \<and>
         length (chunk_lengths (length out)) =
           (length out + SLIP_TX_CHUNK_LEN - 1) div SLIP_TX_CHUNK_LEN \<and>
         (\<forall>c\<in>set (chunk_lengths (length out)). 0 < c \<and> c \<le> SLIP_TX_CHUNK_LEN) \<and>
         (\<forall>j<length ws. \<exists>sj.
            dispatch_all C (map Writable (take j ws)) (btstack_uart_slip_posix_send_frame C frame s) =
              Some sj \<and>
            FrameSent \<notin> set (effects_since s sj) \<and>
            btstack_uart_slip_write_active sj \<and> ds_write_enabled sj)"
proof -
  let ?s0 = "btstack_uart_slip_posix_send_frame C frame s"
  let ?c = "min SLIP_TX_CHUNK_LEN (length out)"
  from send_frame_starts [OF fd cb enc ne]
  have s0: "frame_send_pending C ?s0 (drop SLIP_TX_CHUNK_LEN out)"
      "btstack_uart_slip_write_bytes_len ?s0 = int ?c"
      "trace ?s0 = trace s @ [LogSlipSend ?c, Enable DATA_SOURCE_CALLBACK_WRITE]"
    by simp_all
  have sum0: "btstack_uart_slip_write_bytes_len ?s0 + int (length (drop SLIP_TX_CHUNK_LEN out)) =
      int (length out)"
    using s0(2) by (simp add: min_def)
  have pos: "0 < length out" using ne by simp
  from frame_write_complete [OF s0(1) fit] total sum0
  obtain s' T where s': "dispatch_all C (map Writable ws) ?s0 = Some s'"
      "trace s' = trace ?s0 @ T @ [Disable DATA_SOURCE_CALLBACK_WRITE, FrameSent]"
      "FrameSent \<notin> set T"
      "chunks_submitted T = chunk_lengths (length (drop SLIP_TX_CHUNK_LEN out))"
      "\<not> btstack_uart_slip_write_active s'"
      "\<not> btstack_slip_encoder_has_data C (slip_encoder s')"
    by auto
  let ?T = "[LogSlipSend ?c, Enable DATA_SOURCE_CALLBACK_WRITE] @ T"
  have "trace s' = trace s @ ?T @ [Disable DATA_SOURCE_CALLBACK_WRITE, FrameSent]"
    using s'(2) s0(3) by simp
  then have "effects_since s s' = ?T @ [Disable DATA_SOURCE_CALLBACK_WRITE, FrameSent]"
    by (rule effects_since_append)
  moreover have "FrameSent \<notin> set ?T" using s'(3) by simp
  moreover have "chunks_submitted ?T = chunk_lengths (length out)"
    using s'(4) chunk_lengths_pos [OF pos] by simp
  ultimately have a: "\<exists>s' T. dispatch_all C (map Writable ws) ?s0 = Some s' \<and>
            effects_since s s' = T @ [Disable DATA_SOURCE_CALLBACK_WRITE, FrameSent] \<and>
            FrameSent \<notin> set T \<and>
            chunks_submitted T = chunk_lengths (length out) \<and>
            \<not> btstack_uart_slip_write_active s' \<and>
            \<not> btstack_slip_encoder_has_data C (slip_encoder s')"
    using s'(1,5,6) by blast
  have b: "\<forall>j<length ws. \<exists>sj.
            dispatch_all C (map Writable (take j ws)) ?s0 = Some sj \<and>
            FrameSent \<notin> set (effects_since s sj) \<and>
            btstack_uart_slip_write_active sj \<and> ds_write_enabled sj"
  proof (intro allI impI)
    fix j assume j: "j < length ws"
    have "sum_list (take j ws) < sum_list ws"
      using write_results_fit_pos [OF fit] j by (rule sum_list_take_less)
    then have "sum_list (take j ws) <
        btstack_uart_slip_write_bytes_len ?s0 + int (length (drop SLIP_TX_CHUNK_LEN out))"
      using total sum0 by simp
    from frame_write_incomplete [OF s0(1) write_results_fit_take [OF fit] this]
    obtain sj Tj rest' where sj: "dispatch_all C (map Writable (take j ws)) ?s0 = Some sj"
        "frame_send_pending C sj rest'" "trace sj = trace ?s0 @ Tj" "FrameSent \<notin> set Tj"
      by blast
    have "trace sj = trace s @ ([LogSlipSend ?c, Enable DATA_SOURCE_CALLBACK_WRITE] @ Tj)"
      using sj(3) s0(3) by simp
    then have "effects_since s sj = [LogSlipSend ?c, Enable DATA_SOURCE_CALLBACK_WRITE] @ Tj"
      by (rule effects_since_append)
    with sj(1,2,4)
    show "\<exists>sj. dispatch_all C (map Writable (take j ws)) ?s0 = Some sj \<and>
            FrameSent \<notin> set (effects_since s sj) \<and>
            btstack_uart_slip_write_active sj \<and> ds_write_enabled sj"
      by (auto simp: frame_send_pending_def)
  qed
  from a chunk_lengths_count [of "length out"] chunk_lengths_bound [of "length out"] b
  show ?thesis by blast
qed

theorem frame_sent_fires_once_after_last_chunk_witness:
  "\<exists>s' T. dispatch_all scenario_codec (map Writable [100, 28, 2])
             (btstack_uart_slip_posix_send_frame scenario_codec (replicate 130 1) open_session) =
             Some s' \<and>
          effects_since open_session s' = T @ [Disable DATA_SOURCE_CALLBACK_WRITE, FrameSent] \<and>
          FrameSent \<notin> set T \<and>
          chunks_submitted T = [128, 2] \<and>
          \<not> btstack_uart_slip_write_active s'"
proof -
  let ?C = "scenario_codec"
  let ?out = "replicate 130 (1 :: u8)"
  let ?s0 = "btstack_uart_slip_posix_send_frame ?C ?out open_session"
  have fd: "0 \<le> ds_fd open_session" and cb: "frame_sent open_session"
    by (simp_all add: open_session_def startup_def)
  have ne: "?out \<noteq> []" by simp
  note enc = scenario_encoder_yields [of ?out]
  from send_frame_starts [OF fd cb enc ne]
  have s0: "frame_send_pending ?C ?s0 (replicate 2 1)"
      "btstack_uart_slip_write_bytes_len ?s0 = 128"
    by (simp_all add: SLIP_TX_CHUNK_LEN_def)
  from frame_write_step_partial [OF s0(1), of 100] s0(2)
  obtain s1 where s1: "hci_uart_posix_process ?C (Writable 100) ?s0 = Some s1"
      "frame_send_pending ?C s1 (replicate 2 1)"
      "btstack_uart_slip_write_bytes_len s1 = 28"
    by auto
  from frame_write_step_next_chunk [OF s1(2), of 28] s1(3)
  obtain s2 where s2: "hci_uart_posix_process ?C (Writable 28) s1 = Some s2"
      "frame_send_pending ?C s2 []"
      "btstack_uart_slip_write_bytes_len s2 = 2"
    by (auto simp: SLIP_TX_CHUNK_LEN_def)
  from frame_write_step_final [OF s2(2), of 2] s2(3)
  obtain s3 where s3: "hci_uart_posix_process ?C (Writable 2) s2 = Some s3"
    by auto
  have fit: "write_results_fit ?C [100, 28, 2] ?s0"
    using s0(2) s1(1,3) s2(1,3) s3 by simp
  have total: "sum_list [100, 28, 2] = int (length ?out)" by simp
  have chunks: "chunk_lengths (length ?out) = [128, 2]"
    by (simp add: chunk_lengths.simps SLIP_TX_CHUNK_LEN_def)
  from frame_sent_fires_once_after_last_chunk [OF fd cb enc ne fit total] chunks
  show ?thesis by auto
qed

section \<open>The cursors of the scratch buffer (C8)\<close>

lemma process_buffer_inv:
  assumes le: "btstack_uart_slip_receive_pos s \<le> btstack_uart_slip_receive_len s"
    and cap: "btstack_uart_slip_receive_len s \<le> SLIP_RECEIVE_BUFFER_SIZE"
    and run: "btstack_uart_slip_posix_process_buffer C s = Some (s', n)"
  shows "scratch_inv s'"
proof -
  obtain d k m where feed: "feed_until_frame C (slip_decoder s) (scratch_pending s) = (d, k, m)"
    by (cases "feed_until_frame C (slip_decoder s) (scratch_pending s)")
  show ?thesis
  proof (cases "m = 0")
    case True
    with process_buffer_no_frame [OF _ le, of C d k] feed run show ?thesis
      by (auto simp: scratch_inv_def)
  next
    case False
    have cb: "frame_received s"
      using run feed False by (simp add: process_buffer_feed Let_def split: if_splits)
    from process_buffer_frame [OF feed False cb le] run cap show ?thesis
      by (auto simp: scratch_inv_def)
  qed
qed

lemma slip_process_read_inv:
  assumes inv: "scratch_inv s" and fit: "bytes_got r \<le> SLIP_RECEIVE_BUFFER_SIZE"
    and run: "btstack_uart_slip_posix_process_read C r s = Some s'"
  shows "scratch_inv s'"
proof (cases r)
  case None
  with run inv show ?thesis
    by (cases "btstack_uart_slip_receive_track_start s = 0")
       (auto simp: btstack_uart_slip_posix_process_read_def Let_def emit_def scratch_inv_def)
next
  case (Some bs)
  let ?s1 = "if btstack_uart_slip_receive_track_start s \<noteq> 0
             then s\<lparr>btstack_uart_slip_receive_track_start := 0\<rparr> else s"
  let ?s2 = "emit (SysRead SLIP_RECEIVE_BUFFER_SIZE) ?s1"
  let ?s3 = "?s2\<lparr>btstack_uart_slip_receive_buffer :=
                      bs @ drop (length bs) (btstack_uart_slip_receive_buffer ?s2),
                    btstack_uart_slip_receive_pos := 0,
                    btstack_uart_slip_receive_len := length bs mod 65536\<rparr>"
  from fit Some have len: "length bs \<le> SLIP_RECEIVE_BUFFER_SIZE"
    by (simp add: bytes_got_def)
  then have small: "length bs mod 65536 = length bs"
    by (simp add: SLIP_RECEIVE_BUFFER_SIZE_def)
  from run Some obtain n where pb: "btstack_uart_slip_posix_process_buffer C ?s3 = Some (s', n)"
    by (auto simp: btstack_uart_slip_posix_process_read_def Let_def)
  have "btstack_uart_slip_receive_pos ?s3 \<le> btstack_uart_slip_receive_len ?s3"
    by simp
  moreover have "btstack_uart_slip_receive_len ?s3 \<le> SLIP_RECEIVE_BUFFER_SIZE"
    using len small by simp
  ultimately show ?thesis
    using pb by (rule process_buffer_inv)
qed

lemma receive_frame_inv:
  assumes inv: "scratch_inv s"
    and run: "btstack_uart_slip_posix_receive_frame C len s = Some s'"
  shows "scratch_inv s'"
proof -
  let ?s1 = "s\<lparr>btstack_uart_slip_receive_active := True,
                 btstack_uart_slip_receive_track_start := 1,
                 slip_decoder := btstack_slip_decoder_init C len\<rparr>"
  show ?thesis
  proof (cases "btstack_uart_slip_receive_len s = 0")
    case True
    with run inv show ?thesis
      by (auto simp: btstack_uart_slip_posix_receive_frame_def run_loop_defs scratch_inv_def)
  next
    case False
    from inv have le: "btstack_uart_slip_receive_pos ?s1 \<le> btstack_uart_slip_receive_len ?s1"
      and cap: "btstack_uart_slip_receive_len ?s1 \<le> SLIP_RECEIVE_BUFFER_SIZE"
      by (simp_all add: scratch_inv_def)
    from run False obtain s2 n where pb:
        "btstack_uart_slip_posix_process_buffer C ?s1 = Some (s2, n)"
      and s': "s' = (if n \<noteq> 0 then s2
                     else btstack_run_loop_enable_data_source_callbacks
                            DATA_SOURCE_CALLBACK_READ s2)"
      by (auto simp: btstack_uart_slip_posix_receive_frame_def split: option.splits if_splits)
    from process_buffer_inv [OF le cap pb] s' show ?thesis
      by (auto simp: run_loop_defs scratch_inv_def)
  qed
qed

lemma hci_uart_posix_process_inv:
  assumes inv: "scratch_inv s"
    and fit: "\<forall>r. ev = Readable r \<longrightarrow> bytes_got r \<le> SLIP_RECEIVE_BUFFER_SIZE"
    and run: "hci_uart_posix_process C ev s = Some s'"
  shows "scratch_inv s'"
proof (cases "ds_fd s < 0")
  case True
  with run inv show ?thesis by (simp add: hci_uart_posix_process_def)
next
  case False
  show ?thesis
  proof (cases ev)
    case (Readable r)
    show ?thesis
    proof (cases "btstack_uart_slip_receive_active s")
      case True
      with run False Readable
      have "btstack_uart_slip_posix_process_read C r s = Some s'"
        by (simp add: hci_uart_posix_process_def)
      with inv fit Readable show ?thesis by (auto intro: slip_process_read_inv)
    next
      case nact: False
      with run False Readable
      have "s' = btstack_uart_block_posix_process_read r s"
        by (simp add: hci_uart_posix_process_def)
      with inv show ?thesis
        by (simp add: btstack_uart_block_posix_process_read_def run_loop_defs Let_def
              scratch_inv_def)
    qed
  next
    case (Writable w)
    show ?thesis
    proof (cases "btstack_uart_slip_write_active s")
      case True
      with run False Writable
      have s': "s' = btstack_uart_slip_posix_process_write C w s"
        by (simp add: hci_uart_posix_process_def)
      show ?thesis
        using inv unfolding s'
        by (simp add: btstack_uart_slip_posix_process_write_def
              btstack_uart_slip_posix_block_sent_def
              btstack_uart_slip_posix_encode_chunk_and_send_def
              run_loop_defs Let_def scratch_inv_def case_prod_beta
              encode_chunk_loop_receive_pos encode_chunk_loop_receive_len)
    next
      case nact: False
      with run False Writable
      have "s' = btstack_uart_block_posix_process_write w s"
        by (simp add: hci_uart_posix_process_def)
      with inv show ?thesis
        by (simp add: btstack_uart_block_posix_process_write_def run_loop_defs Let_def
              scratch_inv_def)
    qed
  next
    case Polled
    with run inv show ?thesis
      by (auto simp: hci_uart_posix_process_def split: if_splits)
  qed
qed

text \<open>
  C8. The invariant holds as the program starts, and each operation that touches the
  cursors (\<^verbatim>\<open>process_buffer\<close>, \<^verbatim>\<open>process_read\<close> with a read of at most the capacity,
  \<^verbatim>\<open>receive_frame\<close>) and every dispatch keep it: the position is at most the length, the
  length at most the capacity, and when the position equals the length both are zero.
  With a \<^verbatim>\<open>frame_received\<close> handler registered each of the three returns a state.
\<close>

theorem scratch_cursors_invariant:
  assumes "scratch_inv s"
  shows "scratch_inv (startup e d) \<and>
     (\<forall>s' n. btstack_uart_slip_posix_process_buffer C s = Some (s', n) \<longrightarrow> scratch_inv s') \<and>
     (\<forall>r s'. bytes_got r \<le> SLIP_RECEIVE_BUFFER_SIZE \<longrightarrow>
        btstack_uart_slip_posix_process_read C r s = Some s' \<longrightarrow> scratch_inv s') \<and>
     (\<forall>len s'. btstack_uart_slip_posix_receive_frame C len s = Some s' \<longrightarrow> scratch_inv s') \<and>
     (\<forall>ev s'. (\<forall>r. ev = Readable r \<longrightarrow> bytes_got r \<le> SLIP_RECEIVE_BUFFER_SIZE) \<longrightarrow>
        hci_uart_posix_process C ev s = Some s' \<longrightarrow> scratch_inv s') \<and>
     (frame_received s \<longrightarrow>
        btstack_uart_slip_posix_process_buffer C s \<noteq> None \<and>
        (\<forall>r. btstack_uart_slip_posix_process_read C r s \<noteq> None) \<and>
        (\<forall>len. btstack_uart_slip_posix_receive_frame C len s \<noteq> None))"
proof -
  have a: "scratch_inv (startup e d)"
    by (simp add: scratch_inv_def startup_def)
  have b: "\<forall>s' n. btstack_uart_slip_posix_process_buffer C s = Some (s', n) \<longrightarrow> scratch_inv s'"
  proof -
    have "btstack_uart_slip_receive_pos s \<le> btstack_uart_slip_receive_len s"
      and "btstack_uart_slip_receive_len s \<le> SLIP_RECEIVE_BUFFER_SIZE"
      using assms by (simp_all add: scratch_inv_def)
    then show ?thesis using process_buffer_inv by blast
  qed
  have c: "\<forall>r s'. bytes_got r \<le> SLIP_RECEIVE_BUFFER_SIZE \<longrightarrow>
        btstack_uart_slip_posix_process_read C r s = Some s' \<longrightarrow> scratch_inv s'"
    using assms by (auto intro: slip_process_read_inv)
  have d: "\<forall>len s'. btstack_uart_slip_posix_receive_frame C len s = Some s' \<longrightarrow> scratch_inv s'"
    using assms by (auto intro: receive_frame_inv)
  have e: "\<forall>ev s'. (\<forall>r. ev = Readable r \<longrightarrow> bytes_got r \<le> SLIP_RECEIVE_BUFFER_SIZE) \<longrightarrow>
        hci_uart_posix_process C ev s = Some s' \<longrightarrow> scratch_inv s'"
    using assms hci_uart_posix_process_inv by blast
  have f: "frame_received s \<longrightarrow>
        btstack_uart_slip_posix_process_buffer C s \<noteq> None \<and>
        (\<forall>r. btstack_uart_slip_posix_process_read C r s \<noteq> None) \<and>
        (\<forall>len. btstack_uart_slip_posix_receive_frame C len s \<noteq> None)"
  proof (intro impI conjI allI)
    assume cb: "frame_received s"
    show "btstack_uart_slip_posix_process_buffer C s \<noteq> None"
      using cb by (rule process_buffer_total)
    show "btstack_uart_slip_posix_process_read C r s \<noteq> None" for r
      using cb
      by (cases r)
         (simp_all add: btstack_uart_slip_posix_process_read_def Let_def emit_def
            process_buffer_total)
    show "btstack_uart_slip_posix_receive_frame C len s \<noteq> None" for len
      using process_buffer_total [of "s\<lparr>btstack_uart_slip_receive_active := True,
                 btstack_uart_slip_receive_track_start := 1,
                 slip_decoder := btstack_slip_decoder_init C len\<rparr>" C] cb
      by (auto simp: btstack_uart_slip_posix_receive_frame_def Let_def split: option.splits)
  qed
  from a b c d e f show ?thesis by blast
qed

theorem scratch_cursors_invariant_witness:
  "scratch_inv buffered_session \<and>
   (\<exists>s'. btstack_uart_slip_posix_receive_frame scenario_codec 16 buffered_session = Some s' \<and>
      scratch_inv s') \<and>
   (\<exists>s'. btstack_uart_slip_posix_process_read scenario_codec (Some [1, 2, 0xC0, 3])
            buffered_session = Some s' \<and>
      scratch_inv s')"
proof -
  have inv: "scratch_inv buffered_session"
    by (simp add: scratch_inv_def buffered_session_fields SLIP_RECEIVE_BUFFER_SIZE_def)
  have fit: "bytes_got (Some [1, 2, 0xC0, 3 :: u8]) \<le> SLIP_RECEIVE_BUFFER_SIZE"
    by (simp add: bytes_got_def SLIP_RECEIVE_BUFFER_SIZE_def)
  from scratch_cursors_invariant [OF inv, of "[]" "(0, 0)" scenario_codec]
    buffered_session_fields(3) fit inv
  show ?thesis by (metis not_None_eq)
qed

section \<open>Closing (C9)\<close>

text \<open>
  C9. Closing a session whose descriptor is already \<open>- 1\<close> returns 0 and leaves the
  descriptor at \<open>- 1\<close>. It calls the run loop to remove the data source and \<^verbatim>\<open>close\<close> on
  \<open>- 1\<close>; apart from these two calls and the registration with the run loop, which a
  closed session has lost already, the state is as it was.
\<close>

theorem close_of_closed_session:
  assumes "ds_fd s = - 1"
  shows "btstack_uart_posix_close_new s =
           (0, s\<lparr>ds_registered := False,
                  trace := trace s @ [RemoveDataSource, SysClose (- 1)]\<rparr>) \<and>
         ds_fd (snd (btstack_uart_posix_close_new s)) = - 1"
  using assms
  by (simp add: btstack_uart_posix_close_new_def btstack_run_loop_remove_data_source_def
        emit_def Let_def)

theorem close_of_closed_session_witness:
  "btstack_uart_posix_close_new (snd (btstack_uart_posix_close_new open_session)) =
     (0, (snd (btstack_uart_posix_close_new open_session))
           \<lparr>ds_registered := False,
            trace := trace (snd (btstack_uart_posix_close_new open_session)) @
                       [RemoveDataSource, SysClose (- 1)]\<rparr>) \<and>
   ds_fd (snd (btstack_uart_posix_close_new (snd (btstack_uart_posix_close_new open_session))))
     = - 1 \<and>
   ds_registered (snd (btstack_uart_posix_close_new open_session)) = False"
proof -
  have closed: "ds_fd (snd (btstack_uart_posix_close_new open_session)) = - 1"
    by (simp add: btstack_uart_posix_close_new_def Let_def)
  have unreg: "ds_registered (snd (btstack_uart_posix_close_new open_session)) = False"
    by (simp add: btstack_uart_posix_close_new_def btstack_run_loop_remove_data_source_def
          emit_def Let_def)
  from close_of_closed_session [OF closed] unreg show ?thesis by blast
qed

section \<open>A frame with no encoded bytes (C10)\<close>

lemma process_buffer_write_side:
  assumes "btstack_uart_slip_posix_process_buffer C s = Some (s', n)"
  shows "btstack_uart_slip_write_active s' = btstack_uart_slip_write_active s \<and>
         btstack_uart_slip_write_bytes_len s' = btstack_uart_slip_write_bytes_len s \<and>
         ds_write_enabled s' = ds_write_enabled s \<and>
         (\<exists>T. trace s' = trace s @ T \<and> set T \<subseteq> {FrameReceived n})"
  using assms
  by (auto simp: process_buffer_feed Let_def split: prod.splits if_splits)

lemma stalled_send_step:
  assumes st: "btstack_uart_slip_write_active s" "btstack_uart_slip_write_bytes_len s = 0"
      "ds_write_enabled s"
    and run: "hci_uart_posix_process C ev s = Some s'"
  shows "btstack_uart_slip_write_active s' \<and> btstack_uart_slip_write_bytes_len s' = 0 \<and>
         ds_write_enabled s' \<and>
         (\<exists>T. trace s' = trace s @ T \<and> FrameSent \<notin> set T \<and>
              Disable DATA_SOURCE_CALLBACK_WRITE \<notin> set T)"
proof (cases "ds_fd s < 0")
  case True
  with run st show ?thesis by (simp add: hci_uart_posix_process_def)
next
  case False
  show ?thesis
  proof (cases ev)
    case Polled
    with run st False show ?thesis by (auto simp: hci_uart_posix_process_def)
  next
    case (Writable w)
    with run st False show ?thesis
      by (auto simp: hci_uart_posix_process_def btstack_uart_slip_posix_process_write_def)
  next
    case (Readable r)
    show ?thesis
    proof (cases "btstack_uart_slip_receive_active s")
      case nact: False
      with run False Readable have "s' = btstack_uart_block_posix_process_read r s"
        by (simp add: hci_uart_posix_process_def)
      with st show ?thesis
        by (simp add: btstack_uart_block_posix_process_read_def run_loop_defs Let_def)
    next
      case True
      with run False Readable
      have rd: "btstack_uart_slip_posix_process_read C r s = Some s'"
        by (simp add: hci_uart_posix_process_def)
      show ?thesis
      proof (cases r)
        case None
        with rd st show ?thesis
          by (cases "btstack_uart_slip_receive_track_start s = 0")
             (auto simp: btstack_uart_slip_posix_process_read_def Let_def emit_def)
      next
        case (Some bs)
        let ?t = "(emit (SysRead SLIP_RECEIVE_BUFFER_SIZE)
           (if btstack_uart_slip_receive_track_start s \<noteq> 0
            then s\<lparr>btstack_uart_slip_receive_track_start := 0\<rparr> else s))
          \<lparr>btstack_uart_slip_receive_buffer :=
             bs @ drop (length bs)
               (btstack_uart_slip_receive_buffer
                 (emit (SysRead SLIP_RECEIVE_BUFFER_SIZE)
                   (if btstack_uart_slip_receive_track_start s \<noteq> 0
                    then s\<lparr>btstack_uart_slip_receive_track_start := 0\<rparr> else s))),
           btstack_uart_slip_receive_pos := 0,
           btstack_uart_slip_receive_len := length bs mod 65536\<rparr>"
        from rd Some obtain n where pb:
            "btstack_uart_slip_posix_process_buffer C ?t = Some (s', n)"
          by (auto simp: btstack_uart_slip_posix_process_read_def Let_def)
        have t: "btstack_uart_slip_write_active ?t" "btstack_uart_slip_write_bytes_len ?t = 0"
            "ds_write_enabled ?t" "trace ?t = trace s @ [SysRead SLIP_RECEIVE_BUFFER_SIZE]"
          using st by (simp_all add: emit_def)
        from process_buffer_write_side [OF pb] t
        obtain T where T: "btstack_uart_slip_write_active s'"
            "btstack_uart_slip_write_bytes_len s' = 0" "ds_write_enabled s'"
            "trace s' = trace s @ (SysRead SLIP_RECEIVE_BUFFER_SIZE # T)"
            "set T \<subseteq> {FrameReceived n}"
          by auto
        from T(5) have "FrameSent \<notin> set (SysRead SLIP_RECEIVE_BUFFER_SIZE # T)"
            "Disable DATA_SOURCE_CALLBACK_WRITE \<notin> set (SysRead SLIP_RECEIVE_BUFFER_SIZE # T)"
          by auto
        with T(1-4) show ?thesis by blast
      qed
    qed
  qed
qed

lemma stalled_send_run:
  assumes "btstack_uart_slip_write_active s" "btstack_uart_slip_write_bytes_len s = 0"
      "ds_write_enabled s"
    and "dispatch_all C evs s = Some s'"
  shows "btstack_uart_slip_write_active s' \<and> btstack_uart_slip_write_bytes_len s' = 0 \<and>
         ds_write_enabled s' \<and>
         (\<exists>T. trace s' = trace s @ T \<and> FrameSent \<notin> set T \<and>
              Disable DATA_SOURCE_CALLBACK_WRITE \<notin> set T)"
  using assms
proof (induction evs arbitrary: s)
  case Nil
  then show ?case by simp
next
  case (Cons ev evs)
  from Cons.prems(4) obtain s1 where s1: "hci_uart_posix_process C ev s = Some s1"
      "dispatch_all C evs s1 = Some s'"
    by (auto split: option.splits)
  from stalled_send_step [OF Cons.prems(1-3) s1(1)]
  obtain T1 where T1: "btstack_uart_slip_write_active s1"
      "btstack_uart_slip_write_bytes_len s1 = 0" "ds_write_enabled s1"
      "trace s1 = trace s @ T1" "FrameSent \<notin> set T1"
      "Disable DATA_SOURCE_CALLBACK_WRITE \<notin> set T1"
    by blast
  from Cons.IH [OF T1(1-3) s1(2)]
  obtain T where T: "btstack_uart_slip_write_active s'"
      "btstack_uart_slip_write_bytes_len s' = 0" "ds_write_enabled s'"
      "trace s' = trace s1 @ T" "FrameSent \<notin> set T"
      "Disable DATA_SOURCE_CALLBACK_WRITE \<notin> set T"
    by blast
  have "trace s' = trace s @ (T1 @ T)" using T1(4) T(4) by simp
  moreover have "FrameSent \<notin> set (T1 @ T)" "Disable DATA_SOURCE_CALLBACK_WRITE \<notin> set (T1 @ T)"
    using T1(5,6) T(5,6) by simp_all
  ultimately show ?case using T(1-3) by blast
qed

text \<open>
  C10. When the encoder reports no data right after \<^verbatim>\<open>encoder_start\<close>, \<^verbatim>\<open>send_frame\<close> submits
  a chunk of length zero and arms write interest. Every run of write dispatches, whatever
  the results offered, leaves this state as it is; and after any run of dispatches, read
  dispatches among them, the \<^verbatim>\<open>frame_sent\<close> callback has not been called, write interest has
  not been disarmed and is armed, and the send is active.
\<close>

theorem empty_encoding_never_completes:
  assumes "\<not> btstack_slip_encoder_has_data C (btstack_slip_encoder_start C frame)"
  shows "effects_since s (btstack_uart_slip_posix_send_frame C frame s) =
           [LogSlipSend 0, Enable DATA_SOURCE_CALLBACK_WRITE] \<and>
         (\<forall>ws. \<exists>s'. dispatch_all C (map Writable ws) (btstack_uart_slip_posix_send_frame C frame s) = Some s' \<and>
            s' = btstack_uart_slip_posix_send_frame C frame s \<and>
            FrameSent \<notin> set (effects_since s s') \<and>
            Disable DATA_SOURCE_CALLBACK_WRITE \<notin> set (effects_since s s') \<and>
            ds_write_enabled s' \<and> btstack_uart_slip_write_active s') \<and>
         (\<forall>evs s'. dispatch_all C evs (btstack_uart_slip_posix_send_frame C frame s) = Some s' \<longrightarrow>
            FrameSent \<notin> set (effects_since s s') \<and>
            Disable DATA_SOURCE_CALLBACK_WRITE \<notin> set (effects_since s s') \<and>
            ds_write_enabled s' \<and> btstack_uart_slip_write_active s')"
proof -
  let ?s0 = "btstack_uart_slip_posix_send_frame C frame s"
  have s0: "?s0 = s\<lparr>btstack_uart_slip_write_active := True,
                    slip_encoder := btstack_slip_encoder_start C frame,
                    btstack_uart_slip_write_bytes_data := 0,
                    btstack_uart_slip_write_bytes_len := 0,
                    ds_write_enabled := True,
                    trace := trace s @ [LogSlipSend 0, Enable DATA_SOURCE_CALLBACK_WRITE]\<rparr>"
    using assms
    by (simp add: btstack_uart_slip_posix_send_frame_def
          btstack_uart_slip_posix_encode_chunk_and_send_def encode_chunk_loop_no_data
          run_loop_defs)
  have eff: "effects_since s ?s0 = [LogSlipSend 0, Enable DATA_SOURCE_CALLBACK_WRITE]"
    by (simp add: s0 effects_since_def)
  have facts: "btstack_uart_slip_write_active ?s0" "ds_write_enabled ?s0"
    "btstack_uart_slip_write_bytes_len ?s0 = 0"
    "trace ?s0 = trace s @ [LogSlipSend 0, Enable DATA_SOURCE_CALLBACK_WRITE]"
    by (simp_all add: s0)
  have step: "hci_uart_posix_process C (Writable w) ?s0 = Some ?s0" for w
    using facts
    by (simp add: hci_uart_posix_process_def btstack_uart_slip_posix_process_write_def)
  have run: "dispatch_all C (map Writable ws) ?s0 = Some ?s0" for ws
    by (induction ws) (simp_all add: step)
  have writes: "\<forall>ws. \<exists>s'. dispatch_all C (map Writable ws) ?s0 = Some s' \<and>
            s' = ?s0 \<and>
            FrameSent \<notin> set (effects_since s s') \<and>
            Disable DATA_SOURCE_CALLBACK_WRITE \<notin> set (effects_since s s') \<and>
            ds_write_enabled s' \<and> btstack_uart_slip_write_active s'"
    using eff facts(1,2) run by simp
  have any: "FrameSent \<notin> set (effects_since s s') \<and>
            Disable DATA_SOURCE_CALLBACK_WRITE \<notin> set (effects_since s s') \<and>
            ds_write_enabled s' \<and> btstack_uart_slip_write_active s'"
    if "dispatch_all C evs ?s0 = Some s'" for evs s'
  proof -
    from stalled_send_run [OF facts(1,3,2) that]
    obtain T where T: "btstack_uart_slip_write_active s'" "ds_write_enabled s'"
        "trace s' = trace ?s0 @ T" "FrameSent \<notin> set T"
        "Disable DATA_SOURCE_CALLBACK_WRITE \<notin> set T"
      by blast
    have "trace s' = trace s @ ([LogSlipSend 0, Enable DATA_SOURCE_CALLBACK_WRITE] @ T)"
      using T(3) facts(4) by simp
    then have "effects_since s s' = [LogSlipSend 0, Enable DATA_SOURCE_CALLBACK_WRITE] @ T"
      by (rule effects_since_append)
    with T show ?thesis by simp
  qed
  from eff writes any show ?thesis by blast
qed

theorem empty_encoding_never_completes_witness:
  "effects_since open_session (btstack_uart_slip_posix_send_frame scenario_codec [] open_session) =
     [LogSlipSend 0, Enable DATA_SOURCE_CALLBACK_WRITE] \<and>
   (\<exists>s'. dispatch_all scenario_codec (map Writable [0, 1, - 1])
            (btstack_uart_slip_posix_send_frame scenario_codec [] open_session) = Some s' \<and>
      FrameSent \<notin> set (effects_since open_session s') \<and>
      Disable DATA_SOURCE_CALLBACK_WRITE \<notin> set (effects_since open_session s') \<and>
      ds_write_enabled s' \<and> btstack_uart_slip_write_active s')"
proof -
  have "\<not> btstack_slip_encoder_has_data scenario_codec
            (btstack_slip_encoder_start scenario_codec [])"
    by (simp add: scenario_codec_def)
  from empty_encoding_never_completes [OF this, of open_session]
  show ?thesis by blast
qed

end
